theory Spec2Isabelle
  imports Main
begin

section \<open>ConfigService of the TUXEDO Control Center (src/ng-app/app/config.service.ts)\<close>

text \<open>
  The service mirrors daemon-owned configuration (settings, built-in and custom profiles),
  keeps at most one draft profile under edit, and hands changes to the privileged daemon
  through staging files and a privilege-escalation helper.

  JavaScript objects have identity: two fields may hold the same object, and a caller that
  is handed an object can change it. The model therefore keeps an explicit store. An
  address is the position of an object in the store; allocation appends. There is one
  store per TypeScript type that the service shares with its callers: profile objects,
  arrays of profiles, and settings objects. A profile object (with everything nested in
  it) is one cell, and so is a settings object.

  Objects that an operation creates, serialises into a staging file and drops (the copies
  made before each write) never become reachable for anyone else; they are kept as plain
  values.
\<close>

subsection \<open>Data\<close>

type_synonym addr = nat

text \<open>
  \<open>ITccProfile\<close> and \<open>ITccSettings\<close> are declared in common/models, outside
  the file at hand. The service reads and writes \<open>name\<close> of a profile and
  \<open>stateMap\<close> of the settings; all remaining fields are the parameter of the record.
\<close>

record 'b ITccProfile =
  name :: string
  profile_fields :: 'b

record 'c ITccSettings =
  stateMap :: "string \<rightharpoonup> string"
  settings_fields :: 'c

text \<open>
  A staged profile collection is what \<open>JSON.stringify\<close> sees of an array: its elements
  in order, where a hole or an undefined element is written as \<open>null\<close> (\<open>None\<close>).
\<close>

type_synonym 'b profiles_payload = "'b ITccProfile option list"

record environment =
  production :: bool
  TCCD_EXEC_FILE :: string
  process_cwd :: string

record ('b, 'c) ConfigService =
  \<comment> \<open>the store\<close>
  profile_objs :: "'b ITccProfile list"
  array_objs :: "addr list list"
  settings_objs :: "'c ITccSettings list"
  \<comment> \<open>the private fields of the class\<close>
  defaultProfiles :: addr
  customProfiles :: addr
  settings :: addr
  currentProfileEdit :: "addr option"
  currentProfileEditIndex :: int
  \<comment> \<open>what the subjects have emitted (latest last) and the value of the behaviour subject\<close>
  settingsSubject :: "addr list"
  editingProfileSubject :: "addr option list"
  editingProfile :: "addr option"
  \<comment> \<open>the collaborators: push channel, settings reader, staging files, helper calls\<close>
  dbus_customProfiles :: addr
  config_settings :: "'c ITccSettings"
  tmptccprofiles :: "'b profiles_payload option"
  tmptccsettings :: "'c ITccSettings option"
  exec_log :: "string list"
  environment :: environment

subsection \<open>The store\<close>

definition profile_at :: "('b, 'c) ConfigService \<Rightarrow> addr \<Rightarrow> 'b ITccProfile" where
  "profile_at s a = profile_objs s ! a"

definition array_at :: "('b, 'c) ConfigService \<Rightarrow> addr \<Rightarrow> addr list" where
  "array_at s a = array_objs s ! a"

definition settings_at :: "('b, 'c) ConfigService \<Rightarrow> addr \<Rightarrow> 'c ITccSettings" where
  "settings_at s a = settings_objs s ! a"

definition new_profile ::
  "'b ITccProfile \<Rightarrow> ('b, 'c) ConfigService \<Rightarrow> addr \<times> ('b, 'c) ConfigService" where
  "new_profile v s = (length (profile_objs s), s\<lparr>profile_objs := profile_objs s @ [v]\<rparr>)"

definition new_array ::
  "addr list \<Rightarrow> ('b, 'c) ConfigService \<Rightarrow> addr \<times> ('b, 'c) ConfigService" where
  "new_array v s = (length (array_objs s), s\<lparr>array_objs := array_objs s @ [v]\<rparr>)"

definition new_settings ::
  "'c ITccSettings \<Rightarrow> ('b, 'c) ConfigService \<Rightarrow> addr \<times> ('b, 'c) ConfigService" where
  "new_settings v s = (length (settings_objs s), s\<lparr>settings_objs := settings_objs s @ [v]\<rparr>)"

text \<open>
  What a holder of a reference can do to the object behind it: overwrite the content of a
  profile or settings object, or the elements of an array.
\<close>

definition mutate_profile ::
  "addr \<Rightarrow> 'b ITccProfile \<Rightarrow> ('b, 'c) ConfigService \<Rightarrow> ('b, 'c) ConfigService" where
  "mutate_profile a v s = s\<lparr>profile_objs := (profile_objs s)[a := v]\<rparr>"

definition mutate_array ::
  "addr \<Rightarrow> addr list \<Rightarrow> ('b, 'c) ConfigService \<Rightarrow> ('b, 'c) ConfigService" where
  "mutate_array a v s = s\<lparr>array_objs := (array_objs s)[a := v]\<rparr>"

definition mutate_settings ::
  "addr \<Rightarrow> 'c ITccSettings \<Rightarrow> ('b, 'c) ConfigService \<Rightarrow> ('b, 'c) ConfigService" where
  "mutate_settings a v s = s\<lparr>settings_objs := (settings_objs s)[a := v]\<rparr>"

text \<open>
  A store is in order when the mirror's references point to allocated objects. JavaScript
  has no dangling references, so every state of the running program is in order.
\<close>

definition store_ok :: "('b, 'c) ConfigService \<Rightarrow> bool" where
  "store_ok s \<longleftrightarrow>
     defaultProfiles s < length (array_objs s) \<and>
     customProfiles s < length (array_objs s) \<and>
     settings s < length (settings_objs s) \<and>
     (\<forall>a \<in> set (array_at s (defaultProfiles s)). a < length (profile_objs s)) \<and>
     (\<forall>a \<in> set (array_at s (customProfiles s)). a < length (profile_objs s))"

text \<open>
  \<open>allocates s t\<close>: \<open>t\<close> is \<open>s\<close> with more profile objects and arrays in the store and
  nothing else changed. It is used in proofs only.
\<close>

definition allocates :: "('b, 'c) ConfigService \<Rightarrow> ('b, 'c) ConfigService \<Rightarrow> bool" where
  "allocates s t \<longleftrightarrow>
     (\<exists>as ps. t = s\<lparr>profile_objs := profile_objs s @ ps, array_objs := array_objs s @ as\<rparr>)"

subsection \<open>JavaScript built-ins\<close>

text \<open>
  \<open>Array.prototype.findIndex\<close>: the first index whose element satisfies the predicate,
  \<open>-1\<close> when there is none. \<open>Array.prototype.find\<close> is \<^const>\<open>List.find\<close>.
\<close>

fun findIndex :: "('a \<Rightarrow> bool) \<Rightarrow> 'a list \<Rightarrow> int" where
  "findIndex P [] = -1"
| "findIndex P (x # xs) =
     (if P x then 0 else (let i = findIndex P xs in if i = -1 then -1 else i + 1))"

text \<open>Reading \<open>xs[i]\<close>: \<open>undefined\<close> outside the array.\<close>

definition array_get :: "'a list \<Rightarrow> int \<Rightarrow> 'a option" where
  "array_get xs i = (if 0 \<le> i \<and> nat i < length xs then Some (xs ! nat i) else None)"

text \<open>
  Writing \<open>xs[i] = v\<close>, as far as serialisation sees the array afterwards: inside the array
  the element is replaced; past the end the array grows, with holes up to \<open>i\<close>; a
  negative \<open>i\<close> names an ordinary property, which is no element and is not serialised.
\<close>

definition array_set :: "'a option list \<Rightarrow> int \<Rightarrow> 'a option \<Rightarrow> 'a option list" where
  "array_set xs i v =
     (if i < 0 then xs
      else if nat i < length xs then xs[nat i := v]
      else xs @ replicate (nat i - length xs) None @ [v])"

text \<open>
  Assigning \<open>obj[key] = v\<close>, with \<open>v\<close> a string, on a plain object used as a dictionary (a
  map of its own properties): the own property is created or overwritten, with one
  exception. The key \<open>__proto__\<close>, when \<open>obj\<close> has no own property of that name, reaches the
  accessor that \<open>Object.prototype\<close> provides, and its setter ignores a string: nothing is
  stored. (An object that \<open>JSON.parse\<close> built from a text with that key has it as an own
  property, which the assignment then overwrites like any other.)
\<close>

definition property_assign ::
  "(string \<rightharpoonup> string) \<Rightarrow> string \<Rightarrow> string \<Rightarrow> (string \<rightharpoonup> string)" where
  "property_assign obj key v =
     (if key = ''__proto__'' \<and> obj key = None then obj else obj(key \<mapsto> v))"

text \<open>
  \<open>JSON.stringify\<close> turns plain data into text from which \<open>JSON.parse\<close> gives the same
  data back, so two texts are equal exactly when the data are; the text of a value \<open>v\<close> is
  written \<open>JSON_text v\<close>. \<open>JSON.stringify(undefined)\<close> is not a text but \<open>undefined\<close>.
\<close>

datatype 'a json = JSON_text 'a

definition JSON_stringify :: "'a option \<Rightarrow> 'a json option" where
  "JSON_stringify v = map_option JSON_text v"

subsection \<open>Collaborators\<close>

text \<open>
  Modelled from the spec: \<open>ConfigHandler.copyConfig\<close> (common/classes/ConfigHandler, not
  part of the file at hand) makes a deep copy. A copy has the content of its original;
  that it is a new object shows where the copy is allocated.
\<close>

definition copyConfig :: "'a \<Rightarrow> 'a" where
  "copyConfig v = v"

text \<open>
  Modelled from the spec: \<open>ConfigHandler.getSettingsNoThrow\<close> yields the latest settings
  and never fails; each call gives a new object.
\<close>

definition getSettingsNoThrow ::
  "('b, 'c) ConfigService \<Rightarrow> addr \<times> ('b, 'c) ConfigService" where
  "getSettingsNoThrow s = new_settings (config_settings s) s"

text \<open>
  Modelled from the spec: \<open>ConfigHandler.writeProfiles\<close> and \<open>writeSettings\<close> overwrite
  the staging file at the given path with the serialised payload. The service only ever
  passes the two fixed paths.
\<close>

definition tmpProfilesPath :: string where
  "tmpProfilesPath = ''/tmp/tmptccprofiles''"

definition tmpSettingsPath :: string where
  "tmpSettingsPath = ''/tmp/tmptccsettings''"

definition writeProfiles ::
  "'b profiles_payload \<Rightarrow> ('b, 'c) ConfigService \<Rightarrow> ('b, 'c) ConfigService" where
  "writeProfiles payload s = s\<lparr>tmptccprofiles := Some payload\<rparr>"

definition writeSettings ::
  "'c ITccSettings \<Rightarrow> ('b, 'c) ConfigService \<Rightarrow> ('b, 'c) ConfigService" where
  "writeSettings payload s = s\<lparr>tmptccsettings := Some payload\<rparr>"

text \<open>
  Modelled from the spec: the escalation helper is an opaque executable that either
  succeeds or fails. It is a parameter of every operation that calls it: from the command
  line, the two staging files and the daemon-side settings it decides whether it succeeds
  and what the settings are afterwards. The blocking call
  (\<open>ipcRenderer.sendSync('exec-cmd-sync', cmd)\<close>, success when \<open>result.error\<close> is
  undefined) and the non-blocking one (\<open>utils.execFile(cmd)\<close>, success when the promise is
  fulfilled) differ only in whether the caller waits; an operation is followed to the point
  where its promise is settled.
\<close>

type_synonym ('b, 'c) helper =
  "string \<Rightarrow> 'b profiles_payload option \<Rightarrow> 'c ITccSettings option \<Rightarrow> 'c ITccSettings
     \<Rightarrow> bool \<times> 'c ITccSettings"

definition helper_result ::
  "('b, 'c) helper \<Rightarrow> string \<Rightarrow> ('b, 'c) ConfigService \<Rightarrow> bool \<times> 'c ITccSettings" where
  "helper_result helper cmd s =
     helper cmd (tmptccprofiles s) (tmptccsettings s) (config_settings s)"

definition exec_cmd ::
  "('b, 'c) helper \<Rightarrow> string \<Rightarrow> ('b, 'c) ConfigService \<Rightarrow> bool \<times> ('b, 'c) ConfigService" where
  "exec_cmd helper cmd s =
     (fst (helper_result helper cmd s),
      s\<lparr>exec_log := exec_log s @ [cmd],
        config_settings := snd (helper_result helper cmd s)\<rparr>)"

definition tccdExec :: "('b, 'c) ConfigService \<Rightarrow> string" where
  "tccdExec s =
     (if production (environment s) then TCCD_EXEC_FILE (environment s)
      else process_cwd (environment s) @ ''/dist/tuxedo-control-center/data/service/tccd'')"

subsection \<open>State mirror and profile catalog\<close>

definition updateConfigData :: "('b, 'c) ConfigService \<Rightarrow> ('b, 'c) ConfigService" where
  "updateConfigData s =
     (let s1 = s\<lparr>customProfiles := dbus_customProfiles s\<rparr>;
          (a, s2) = getSettingsNoThrow s1;
          s3 = s2\<lparr>settings := a\<rparr>
      in s3\<lparr>settingsSubject := settingsSubject s3 @ [settings s3]\<rparr>)"

definition getSettings :: "('b, 'c) ConfigService \<Rightarrow> addr" where
  "getSettings s = settings s"

definition getCustomProfiles :: "('b, 'c) ConfigService \<Rightarrow> addr" where
  "getCustomProfiles s = customProfiles s"

definition getDefaultProfiles :: "('b, 'c) ConfigService \<Rightarrow> addr" where
  "getDefaultProfiles s = defaultProfiles s"

definition getAllProfiles :: "('b, 'c) ConfigService \<Rightarrow> addr \<times> ('b, 'c) ConfigService" where
  "getAllProfiles s =
     new_array (array_at s (defaultProfiles s) @ array_at s (getCustomProfiles s)) s"

definition getCurrentEditingProfile :: "('b, 'c) ConfigService \<Rightarrow> addr option" where
  "getCurrentEditingProfile s = currentProfileEdit s"

definition getProfileByName ::
  "string \<Rightarrow> ('b, 'c) ConfigService \<Rightarrow> addr option \<times> ('b, 'c) ConfigService" where
  "getProfileByName searchedProfileName s =
     (let (all, s1) = getAllProfiles s in
      case List.find (\<lambda>profile. name (profile_at s1 profile) = searchedProfileName)
             (array_at s1 all) of
        Some foundProfile \<Rightarrow>
          (let (a, s2) = new_profile (copyConfig (profile_at s1 foundProfile)) s1
           in (Some a, s2))
      | None \<Rightarrow> (None, s1))"

definition getCustomProfileByName ::
  "string \<Rightarrow> ('b, 'c) ConfigService \<Rightarrow> addr option \<times> ('b, 'c) ConfigService" where
  "getCustomProfileByName searchedProfileName s =
     (case List.find (\<lambda>profile. name (profile_at s profile) = searchedProfileName)
             (array_at s (getCustomProfiles s)) of
        Some foundProfile \<Rightarrow>
          (let (a, s1) = new_profile (copyConfig (profile_at s foundProfile)) s
           in (Some a, s1))
      | None \<Rightarrow> (None, s))"

text \<open>The content of an array of profiles, as a reader of the array sees it.\<close>

definition profiles_of :: "('b, 'c) ConfigService \<Rightarrow> addr \<Rightarrow> 'b ITccProfile list" where
  "profiles_of s a = map (profile_at s) (array_at s a)"

subsection \<open>Edit session\<close>

definition editProfileChanges :: "('b, 'c) ConfigService \<Rightarrow> bool" where
  "editProfileChanges s =
     (case currentProfileEdit s of
        None \<Rightarrow> False
      | Some draft \<Rightarrow>
          (let currentSavedProfile =
                 array_get (array_at s (customProfiles s)) (currentProfileEditIndex s)
           in JSON_stringify (Some (profile_at s draft))
                \<noteq> JSON_stringify (map_option (profile_at s) currentSavedProfile)))"

text \<open>
  The argument is \<open>None\<close> for \<open>undefined\<close>. A name that is \<open>undefined\<close> equals no
  profile name, so the search after the first \<open>if\<close> finds nothing for it.
\<close>

definition setCurrentEditingProfile ::
  "string option \<Rightarrow> ('b, 'c) ConfigService \<Rightarrow> bool \<times> ('b, 'c) ConfigService" where
  "setCurrentEditingProfile customProfileName s =
     (let s1 = (if customProfileName = None
                then s\<lparr>currentProfileEditIndex := -1,
                       currentProfileEdit := None,
                       editingProfileSubject := editingProfileSubject s @ [None],
                       editingProfile := None\<rparr>
                else s);
          index = findIndex (\<lambda>e. Some (name (profile_at s1 e)) = customProfileName)
                    (array_at s1 (customProfiles s1));
          s2 = s1\<lparr>currentProfileEditIndex := index\<rparr>
      in if index = -1 then (False, s2)
         else
           (let (a, s3) = new_profile
                  (copyConfig (profile_at s2 (array_at s2 (customProfiles s2) ! nat index))) s2
            in (True, s3\<lparr>currentProfileEditIndex := index,
                         currentProfileEdit := Some a,
                         editingProfileSubject := editingProfileSubject s3 @ [Some a],
                         editingProfile := Some a\<rparr>)))"

subsection \<open>Change staging and commit pipeline\<close>

definition pkexecWriteCustomProfiles ::
  "('b, 'c) helper \<Rightarrow> 'b profiles_payload \<Rightarrow> ('b, 'c) ConfigService
     \<Rightarrow> bool \<times> ('b, 'c) ConfigService" where
  "pkexecWriteCustomProfiles helper customProfiles' s =
     (let s1 = writeProfiles customProfiles' s
      in exec_cmd helper (''pkexec '' @ tccdExec s1 @ '' --new_profiles '' @ tmpProfilesPath) s1)"

definition pkexecWriteCustomProfilesAsync ::
  "('b, 'c) helper \<Rightarrow> 'b profiles_payload \<Rightarrow> ('b, 'c) ConfigService
     \<Rightarrow> bool \<times> ('b, 'c) ConfigService" where
  "pkexecWriteCustomProfilesAsync helper customProfiles' s =
     (let s1 = writeProfiles customProfiles' s
      in exec_cmd helper (''pkexec '' @ tccdExec s1 @ '' --new_profiles '' @ tmpProfilesPath) s1)"

definition pkexecWriteConfigAsync ::
  "('b, 'c) helper \<Rightarrow> 'c ITccSettings \<Rightarrow> 'b profiles_payload \<Rightarrow> ('b, 'c) ConfigService
     \<Rightarrow> bool \<times> ('b, 'c) ConfigService" where
  "pkexecWriteConfigAsync helper settings' customProfiles' s =
     (let s1 = writeProfiles customProfiles' s;
          s2 = writeSettings settings' s1
      in exec_cmd helper
           (''pkexec '' @ tccdExec s2 @ '' --new_profiles '' @ tmpProfilesPath
              @ '' --new_settings '' @ tmpSettingsPath) s2)"

definition setActiveProfile ::
  "('b, 'c) helper \<Rightarrow> string \<Rightarrow> string \<Rightarrow> ('b, 'c) ConfigService \<Rightarrow> ('b, 'c) ConfigService" where
  "setActiveProfile helper profileName stateId s =
     (let newSettings = copyConfig (settings_at s (getSettings s));
          newSettings =
            newSettings\<lparr>stateMap := property_assign (stateMap newSettings) stateId profileName\<rparr>;
          s1 = writeSettings newSettings s;
          (result, s2) = exec_cmd helper
                           (''pkexec '' @ tccdExec s1 @ '' --new_settings '' @ tmpSettingsPath) s1
      in updateConfigData s2)"

definition copyProfile ::
  "('b, 'c) helper \<Rightarrow> string \<Rightarrow> string \<Rightarrow> ('b, 'c) ConfigService
     \<Rightarrow> bool \<times> ('b, 'c) ConfigService" where
  "copyProfile helper profileName newProfileName s =
     (let (profileToCopy, s1) = getProfileByName profileName s in
      case profileToCopy of
        None \<Rightarrow> (False, s1)
      | Some toCopy \<Rightarrow>
          (let (existingProfile, s2) = getProfileByName newProfileName s1 in
           case existingProfile of
             Some existing \<Rightarrow> (False, s2)
           | None \<Rightarrow>
               (let newProfile = copyConfig (profile_at s2 toCopy);
                    newProfile = newProfile\<lparr>name := newProfileName\<rparr>;
                    newProfileList =
                      map Some (profiles_of s2 (getCustomProfiles s2)) @ [Some newProfile];
                    (success, s3) = pkexecWriteCustomProfilesAsync helper newProfileList s2
                in (success, if success then updateConfigData s3 else s3))))"

definition writeCurrentEditingProfile ::
  "('b, 'c) helper \<Rightarrow> ('b, 'c) ConfigService \<Rightarrow> bool \<times> ('b, 'c) ConfigService" where
  "writeCurrentEditingProfile helper s =
     (if editProfileChanges s then
        (let changedCustomProfiles = map Some (copyConfig (profiles_of s (customProfiles s)));
             changedCustomProfiles =
               array_set changedCustomProfiles (currentProfileEditIndex s)
                 (map_option (profile_at s) (getCurrentEditingProfile s));
             (result, s1) = pkexecWriteCustomProfiles helper changedCustomProfiles s
         in (result, if result then updateConfigData s1 else s1))
      else (False, s))"

text \<open>
  The profile handed to \<open>writeProfile\<close> is only read, so it is a value; \<open>states\<close> is
  \<open>None\<close> when the optional argument is left out. The result is the value the promise is
  resolved with.
\<close>

definition writeProfile ::
  "('b, 'c) helper \<Rightarrow> string \<Rightarrow> 'b ITccProfile \<Rightarrow> string list option
     \<Rightarrow> ('b, 'c) ConfigService \<Rightarrow> bool \<times> ('b, 'c) ConfigService" where
  "writeProfile helper currentProfileName profile states s =
     (let profileIndex =
            findIndex (\<lambda>p. name (profile_at s p) = currentProfileName)
              (array_at s (customProfiles s));
          existingDefaultProfileWithNewName =
            findIndex (\<lambda>p. name (profile_at s p) = name profile)
              (array_at s (defaultProfiles s));
          exisitingCustomProfileWithNewName =
            findIndex (\<lambda>p. name (profile_at s p) = name profile)
              (array_at s (customProfiles s));
          customProfilesCopy = map Some (copyConfig (profiles_of s (customProfiles s)));
          willOverwriteProfile =
            (profileIndex \<noteq> -1
             \<and> existingDefaultProfileWithNewName = -1
             \<and> (exisitingCustomProfileWithNewName = -1
                  \<or> exisitingCustomProfileWithNewName = profileIndex));
          customProfilesCopy =
            (if willOverwriteProfile
             then array_set customProfilesCopy profileIndex (Some profile)
             else customProfilesCopy);
          newSettings = copyConfig (settings_at s (getSettings s));
          newSettings =
            (case states of
               None \<Rightarrow> newSettings
             | Some ids \<Rightarrow>
                 foldl (\<lambda>st stateId.
                          st\<lparr>stateMap := property_assign (stateMap st) stateId (name profile)\<rparr>)
                   newSettings ids);
          (success, s1) = pkexecWriteConfigAsync helper newSettings customProfilesCopy s
      in (success, if success then updateConfigData s1 else s1))"

subsection \<open>What a caller observes\<close>

text \<open>
  An accessor hands out a reference; what the caller sees is the content behind it. The
  mirror's content is what \<open>getSettings\<close>, \<open>getDefaultProfiles\<close> and
  \<open>getCustomProfiles\<close> show; \<open>lookup_content\<close> and \<open>array_content\<close> read the
  result of an accessor that returns a reference together with the store it left.
\<close>

definition mirror_content ::
  "('b, 'c) ConfigService \<Rightarrow> 'c ITccSettings \<times> 'b ITccProfile list \<times> 'b ITccProfile list" where
  "mirror_content s =
     (settings_at s (getSettings s),
      profiles_of s (getDefaultProfiles s),
      profiles_of s (getCustomProfiles s))"

definition lookup_content ::
  "addr option \<times> ('b, 'c) ConfigService \<Rightarrow> 'b ITccProfile option" where
  "lookup_content r = map_option (profile_at (snd r)) (fst r)"

definition array_content :: "addr \<times> ('b, 'c) ConfigService \<Rightarrow> 'b ITccProfile list" where
  "array_content r = profiles_of (snd r) (fst r)"

subsection \<open>Example states\<close>

text \<open>
  One built-in profile (Office), two custom profiles (Work, Game), the state AC mapped to
  Office, no draft. The helper of the examples either applies the staged settings and
  succeeds, or declines and leaves everything as it is.
\<close>

definition example_service :: "(nat, unit) ConfigService" where
  "example_service =
     \<lparr>profile_objs =
        [\<lparr>name = ''Office'', profile_fields = 1\<rparr>,
         \<lparr>name = ''Work'', profile_fields = 2\<rparr>,
         \<lparr>name = ''Game'', profile_fields = 3\<rparr>],
      array_objs = [[0], [1, 2]],
      settings_objs = [\<lparr>stateMap = [''AC'' \<mapsto> ''Office''], settings_fields = ()\<rparr>],
      defaultProfiles = 0,
      customProfiles = 1,
      settings = 0,
      currentProfileEdit = None,
      currentProfileEditIndex = - 1,
      settingsSubject = [0],
      editingProfileSubject = [],
      editingProfile = None,
      dbus_customProfiles = 1,
      config_settings = \<lparr>stateMap = [''AC'' \<mapsto> ''Office''], settings_fields = ()\<rparr>,
      tmptccprofiles = None,
      tmptccsettings = None,
      exec_log = [],
      environment = \<lparr>production = True, TCCD_EXEC_FILE = ''/opt/tccd'', process_cwd = ''/''\<rparr>\<rparr>"

definition helper_accepts :: "(nat, unit) helper" where
  "helper_accepts cmd staged_profiles staged_settings current =
     (True, case staged_settings of Some new \<Rightarrow> new | None \<Rightarrow> current)"

definition helper_declines :: "(nat, unit) helper" where
  "helper_declines cmd staged_profiles staged_settings current = (False, current)"

text \<open>The example after \<open>setCurrentEditingProfile('Work')\<close>: the draft is object 3, index 0.\<close>

definition example_editing :: "(nat, unit) ConfigService" where
  "example_editing = snd (setCurrentEditingProfile (Some ''Work'') example_service)"

text \<open>The session after the user has changed a field of the draft.\<close>

definition example_edited :: "(nat, unit) ConfigService" where
  "example_edited = mutate_profile 3 \<lparr>name = ''Work'', profile_fields = 7\<rparr> example_editing"

text \<open>
  The edited session after \<open>setCurrentEditingProfile('Missing')\<close>: the draft is still
  object 3, the index is \<open>-1\<close>.
\<close>

definition example_unknown :: "(nat, unit) ConfigService" where
  "example_unknown = snd (setCurrentEditingProfile (Some ''Missing'') example_edited)"

text \<open>
  A session that edits Game (draft object 3, index 1), after the push channel has delivered
  an empty custom collection: the draft's index 1 is now past the end.
\<close>

definition example_shrunk :: "(nat, unit) ConfigService" where
  "example_shrunk =
     (let (a, s) = new_array [] (snd (setCurrentEditingProfile (Some ''Game'') example_service))
      in s\<lparr>customProfiles := a, dbus_customProfiles := a\<rparr>)"

text \<open>
  The session that edits Work, after the push channel has delivered an empty custom
  collection (the subscription in the constructor assigns it to \<open>customProfiles\<close>): the
  draft's index 0 is now past the end.
\<close>

definition example_stale :: "(nat, unit) ConfigService" where
  "example_stale =
     (let (a, s) = new_array [] example_editing
      in s\<lparr>customProfiles := a, dbus_customProfiles := a\<rparr>)"

section \<open>Properties\<close>

subsection \<open>Searching an array\<close>

lemma findIndex_ge: "- 1 \<le> findIndex P xs"
  by (induction xs) (auto simp: Let_def)

lemma findIndex_none_iff: "findIndex P xs = - 1 \<longleftrightarrow> (\<forall>x \<in> set xs. \<not> P x)"
proof (induction xs)
  case Nil
  show ?case by simp
next
  case (Cons x xs)
  have "- 1 \<le> findIndex P xs" by (rule findIndex_ge)
  with Cons show ?case by (auto simp: Let_def)
qed

lemma findIndex_found:
  assumes "findIndex P xs \<noteq> - 1"
  shows "0 \<le> findIndex P xs \<and> nat (findIndex P xs) < length xs \<and> P (xs ! nat (findIndex P xs))"
  using assms
proof (induction xs)
  case Nil
  then show ?case by simp
next
  case (Cons x xs)
  show ?case
  proof (cases "P x")
    case True
    then show ?thesis by simp
  next
    case False
    with Cons.prems have ne: "findIndex P xs \<noteq> - 1" by (auto simp: Let_def split: if_splits)
    from Cons.IH [OF ne] have ih: "0 \<le> findIndex P xs" "nat (findIndex P xs) < length xs"
      "P (xs ! nat (findIndex P xs))" by simp_all
    from False ne have eq: "findIndex P (x # xs) = findIndex P xs + 1" by (simp add: Let_def)
    from ih(1) have n: "nat (findIndex P xs + 1) = Suc (nat (findIndex P xs))" by simp
    show ?thesis using ih by (simp add: eq n)
  qed
qed

lemma findIndex_map: "findIndex (\<lambda>a. Q (f a)) xs = findIndex Q (map f xs)"
  by (induction xs) (simp_all add: Let_def)

lemma find_map_val: "map_option f (List.find (\<lambda>a. Q (f a)) xs) = List.find Q (map f xs)"
  by (induction xs) simp_all

lemma findIndex_name_iff: "findIndex (\<lambda>q. name q = n) ps = - 1 \<longleftrightarrow> n \<notin> name ` set ps"
  by (auto simp: findIndex_none_iff)

lemma name_at_first_index:
  "findIndex (\<lambda>q. name q = n) ps \<noteq> - 1 \<Longrightarrow>
     0 \<le> findIndex (\<lambda>q. name q = n) ps \<and> nat (findIndex (\<lambda>q. name q = n) ps) < length ps
     \<and> name (ps ! nat (findIndex (\<lambda>q. name q = n) ps)) = n"
  using findIndex_found [of "\<lambda>q. name q = n" ps] by simp

lemma findIndex_profiles:
  "findIndex (\<lambda>a. name (profile_at s a) = n) (array_at s c)
     = findIndex (\<lambda>q. name q = n) (profiles_of s c)"
  unfolding profiles_of_def by (rule findIndex_map)

lemma array_set_in_range:
  "0 \<le> i \<Longrightarrow> nat i < length xs \<Longrightarrow>
     array_set (map Some xs) i (Some v) = map Some (xs[nat i := v])"
  by (simp add: array_set_def map_update)

subsection \<open>Refreshing the mirror\<close>

lemma updateConfigData_frame [simp]:
  "tmptccprofiles (updateConfigData s) = tmptccprofiles s"
  "tmptccsettings (updateConfigData s) = tmptccsettings s"
  "exec_log (updateConfigData s) = exec_log s"
  "config_settings (updateConfigData s) = config_settings s"
  "profile_objs (updateConfigData s) = profile_objs s"
  "array_objs (updateConfigData s) = array_objs s"
  "currentProfileEdit (updateConfigData s) = currentProfileEdit s"
  "currentProfileEditIndex (updateConfigData s) = currentProfileEditIndex s"
  by (simp_all add: updateConfigData_def getSettingsNoThrow_def new_settings_def)

lemma updateConfigData_mirror:
  "customProfiles (updateConfigData s) = dbus_customProfiles s"
  "settings (updateConfigData s) = length (settings_objs s)"
  "settings_at (updateConfigData s) (settings (updateConfigData s)) = config_settings s"
  "settingsSubject (updateConfigData s) = settingsSubject s @ [settings (updateConfigData s)]"
  by (simp_all add: updateConfigData_def getSettingsNoThrow_def new_settings_def settings_at_def)

lemma updateConfigData_fresh_settings:
  "n = length (settings_objs s) \<Longrightarrow> settings_at (updateConfigData s) n = config_settings s"
  by (simp add: updateConfigData_def getSettingsNoThrow_def new_settings_def settings_at_def)

subsection \<open>Allocation\<close>

lemma allocatesI:
  "t = s\<lparr>profile_objs := profile_objs s @ ps, array_objs := array_objs s @ as\<rparr> \<Longrightarrow> allocates s t"
  unfolding allocates_def by blast

lemma allocates_refl: "allocates s s"
  by (rule allocatesI [where ps = "[]" and as = "[]"]) simp

lemma allocates_trans: "allocates s t \<Longrightarrow> allocates t u \<Longrightarrow> allocates s u"
  unfolding allocates_def by (elim exE) (rule exI, rule exI, simp)

lemma allocates_fields:
  assumes "allocates s t"
  shows "defaultProfiles t = defaultProfiles s" "customProfiles t = customProfiles s"
    "settings t = settings s" "settings_objs t = settings_objs s"
    "currentProfileEdit t = currentProfileEdit s"
    "currentProfileEditIndex t = currentProfileEditIndex s"
    "settingsSubject t = settingsSubject s" "dbus_customProfiles t = dbus_customProfiles s"
    "config_settings t = config_settings s" "tmptccprofiles t = tmptccprofiles s"
    "tmptccsettings t = tmptccsettings s" "exec_log t = exec_log s"
    "environment t = environment s"
  using assms unfolding allocates_def by auto

lemma allocates_profile_at:
  "allocates s t \<Longrightarrow> a < length (profile_objs s) \<Longrightarrow> profile_at t a = profile_at s a"
  unfolding allocates_def by (auto simp: profile_at_def nth_append)

lemma allocates_array_at:
  "allocates s t \<Longrightarrow> a < length (array_objs s) \<Longrightarrow> array_at t a = array_at s a"
  unfolding allocates_def by (auto simp: array_at_def nth_append)

lemma allocates_length:
  "allocates s t \<Longrightarrow> length (profile_objs s) \<le> length (profile_objs t)"
  "allocates s t \<Longrightarrow> length (array_objs s) \<le> length (array_objs t)"
  unfolding allocates_def by auto

lemma allocates_profiles_of:
  assumes "allocates s t" "a < length (array_objs s)"
    "\<forall>x \<in> set (array_at s a). x < length (profile_objs s)"
  shows "profiles_of t a = profiles_of s a"
  using assms by (simp add: profiles_of_def allocates_array_at allocates_profile_at)

lemma allocates_store_ok:
  assumes "store_ok s" "allocates s t"
  shows "store_ok t"
proof -
  from assms(1) have d: "defaultProfiles s < length (array_objs s)"
    and c: "customProfiles s < length (array_objs s)"
    by (simp_all add: store_ok_def)
  from assms(2) have ad: "array_at t (defaultProfiles s) = array_at s (defaultProfiles s)"
    and ac: "array_at t (customProfiles s) = array_at s (customProfiles s)"
    using d c by (simp_all add: allocates_array_at)
  show ?thesis
    using assms(1) allocates_length [OF assms(2)]
    by (auto simp add: store_ok_def allocates_fields [OF assms(2)] ad ac)
qed

lemma allocates_mirror:
  assumes "store_ok s" "allocates s t"
  shows "profiles_of t (customProfiles t) = profiles_of s (customProfiles s)"
    "profiles_of t (defaultProfiles t) = profiles_of s (defaultProfiles s)"
    "array_at t (customProfiles t) = array_at s (customProfiles s)"
    "array_at t (defaultProfiles t) = array_at s (defaultProfiles s)"
    "settings_at t (settings t) = settings_at s (settings s)"
    "mirror_content t = mirror_content s"
proof -
  from assms(1) have d: "defaultProfiles s < length (array_objs s)"
    and c: "customProfiles s < length (array_objs s)"
    and dd: "\<forall>x \<in> set (array_at s (defaultProfiles s)). x < length (profile_objs s)"
    and cc: "\<forall>x \<in> set (array_at s (customProfiles s)). x < length (profile_objs s)"
    by (simp_all add: store_ok_def)
  show 1: "profiles_of t (customProfiles t) = profiles_of s (customProfiles s)"
    by (simp add: allocates_fields [OF assms(2)] allocates_profiles_of [OF assms(2) c cc])
  show 2: "profiles_of t (defaultProfiles t) = profiles_of s (defaultProfiles s)"
    by (simp add: allocates_fields [OF assms(2)] allocates_profiles_of [OF assms(2) d dd])
  show "array_at t (customProfiles t) = array_at s (customProfiles s)"
    by (simp add: allocates_fields [OF assms(2)] allocates_array_at [OF assms(2) c])
  show "array_at t (defaultProfiles t) = array_at s (defaultProfiles s)"
    by (simp add: allocates_fields [OF assms(2)] allocates_array_at [OF assms(2) d])
  show 3: "settings_at t (settings t) = settings_at s (settings s)"
    by (simp add: settings_at_def allocates_fields [OF assms(2)])
  show "mirror_content t = mirror_content s"
    using 1 2 3
    by (simp add: mirror_content_def getSettings_def getDefaultProfiles_def getCustomProfiles_def)
qed

subsection \<open>The example states\<close>

lemma example_profiles:
  "profiles_of example_service (customProfiles example_service) =
     [\<lparr>name = ''Work'', profile_fields = 2\<rparr>, \<lparr>name = ''Game'', profile_fields = 3\<rparr>]"
  "profiles_of example_service (defaultProfiles example_service) =
     [\<lparr>name = ''Office'', profile_fields = 1\<rparr>]"
  by (simp_all add: example_service_def profiles_of_def profile_at_def array_at_def)

lemma example_settings:
  "settings_at example_service (settings example_service) =
     \<lparr>stateMap = [''AC'' \<mapsto> ''Office''], settings_fields = ()\<rparr>"
  "config_settings example_service = \<lparr>stateMap = [''AC'' \<mapsto> ''Office''], settings_fields = ()\<rparr>"
  "tccdExec example_service = ''/opt/tccd''"
  "exec_log example_service = []"
  by (simp_all add: example_service_def settings_at_def tccdExec_def)

lemma example_store_ok: "store_ok example_service"
  by (simp add: store_ok_def example_service_def array_at_def)

lemma example_editing_eval:
  "example_editing = example_service
     \<lparr>profile_objs := profile_objs example_service @ [\<lparr>name = ''Work'', profile_fields = 2\<rparr>],
      currentProfileEditIndex := 0,
      currentProfileEdit := Some 3,
      editingProfileSubject := [Some 3], editingProfile := Some 3\<rparr>"
  by (simp add: example_editing_def example_service_def setCurrentEditingProfile_def
      profile_at_def array_at_def new_profile_def copyConfig_def Let_def)

lemma example_stale_eval:
  "example_stale = example_editing
     \<lparr>array_objs := [[0], [1, 2], []], customProfiles := 2, dbus_customProfiles := 2\<rparr>"
  by (simp add: example_stale_def new_array_def example_editing_eval)
     (simp add: example_service_def)

lemma example_edited_eval:
  "example_edited = example_service
     \<lparr>profile_objs := profile_objs example_service @ [\<lparr>name = ''Work'', profile_fields = 7\<rparr>],
      currentProfileEditIndex := 0,
      currentProfileEdit := Some 3,
      editingProfileSubject := [Some 3], editingProfile := Some 3\<rparr>"
  by (simp add: example_edited_def example_editing_eval mutate_profile_def)
     (simp add: example_service_def)

lemma example_edited_fields:
  "currentProfileEdit example_edited = Some 3"
  "currentProfileEditIndex example_edited = 0"
  "profiles_of example_edited (customProfiles example_edited) =
     [\<lparr>name = ''Work'', profile_fields = 2\<rparr>, \<lparr>name = ''Game'', profile_fields = 3\<rparr>]"
  "profile_at example_edited 3 = \<lparr>name = ''Work'', profile_fields = 7\<rparr>"
  "tccdExec example_edited = ''/opt/tccd''"
  "exec_log example_edited = []"
  "settingsSubject example_edited = [0]"
  "settings_objs example_edited = settings_objs example_service"
  by (simp_all add: example_edited_eval example_service_def profiles_of_def profile_at_def
      array_at_def tccdExec_def)

subsection \<open>Profile catalog\<close>

lemma getProfileByName_run:
  "getProfileByName n s =
     (let all = array_at s (defaultProfiles s) @ array_at s (customProfiles s);
          s1 = s\<lparr>array_objs := array_objs s @ [all]\<rparr>
      in case List.find (\<lambda>a. name (profile_at s a) = n) all of
           None \<Rightarrow> (None, s1)
         | Some f \<Rightarrow>
             (Some (length (profile_objs s)),
              s1\<lparr>profile_objs := profile_objs s @ [profile_at s f]\<rparr>))"
  by (simp add: getProfileByName_def getAllProfiles_def getCustomProfiles_def new_array_def
      new_profile_def copyConfig_def profile_at_def array_at_def Let_def split: option.split)

lemma getCustomProfileByName_run:
  "getCustomProfileByName n s =
     (case List.find (\<lambda>a. name (profile_at s a) = n) (array_at s (customProfiles s)) of
        None \<Rightarrow> (None, s)
      | Some f \<Rightarrow>
          (Some (length (profile_objs s)),
           s\<lparr>profile_objs := profile_objs s @ [profile_at s f]\<rparr>))"
  by (simp add: getCustomProfileByName_def getCustomProfiles_def
      new_profile_def copyConfig_def Let_def split: option.split)

lemma getProfileByName_content:
  "lookup_content (getProfileByName n s) =
     List.find (\<lambda>q. name q = n)
       (profiles_of s (defaultProfiles s) @ profiles_of s (customProfiles s))"
proof -
  let ?all = "array_at s (defaultProfiles s) @ array_at s (customProfiles s)"
  have "lookup_content (getProfileByName n s)
      = map_option (profile_at s) (List.find (\<lambda>a. name (profile_at s a) = n) ?all)"
    by (simp add: getProfileByName_run lookup_content_def Let_def profile_at_def
        split: option.split)
  also have "\<dots> = List.find (\<lambda>q. name q = n) (map (profile_at s) ?all)"
    by (rule find_map_val)
  finally show ?thesis by (simp add: profiles_of_def)
qed

lemma getCustomProfileByName_content:
  "lookup_content (getCustomProfileByName n s) =
     List.find (\<lambda>q. name q = n) (profiles_of s (customProfiles s))"
proof -
  have "lookup_content (getCustomProfileByName n s)
      = map_option (profile_at s)
          (List.find (\<lambda>a. name (profile_at s a) = n) (array_at s (customProfiles s)))"
    by (simp add: getCustomProfileByName_run lookup_content_def profile_at_def
        split: option.split)
  also have "\<dots> = List.find (\<lambda>q. name q = n) (map (profile_at s) (array_at s (customProfiles s)))"
    by (rule find_map_val)
  finally show ?thesis by (simp add: profiles_of_def)
qed

lemma getAllProfiles_content:
  "array_content (getAllProfiles s) =
     profiles_of s (defaultProfiles s) @ profiles_of s (customProfiles s)"
  by (simp add: array_content_def getAllProfiles_def getCustomProfiles_def new_array_def
      profiles_of_def array_at_def profile_at_def)

lemma getProfileByName_allocates: "allocates s (snd (getProfileByName n s))"
proof (cases "List.find (\<lambda>a. name (profile_at s a) = n)
        (array_at s (defaultProfiles s) @ array_at s (customProfiles s))")
  case None
  show ?thesis
    by (rule allocatesI [where ps = "[]"
          and as = "[array_at s (defaultProfiles s) @ array_at s (customProfiles s)]"])
       (simp add: getProfileByName_run Let_def None)
next
  case (Some f)
  show ?thesis
    by (rule allocatesI [where ps = "[profile_at s f]"
          and as = "[array_at s (defaultProfiles s) @ array_at s (customProfiles s)]"])
       (simp add: getProfileByName_run Let_def Some)
qed

lemma getCustomProfileByName_allocates: "allocates s (snd (getCustomProfileByName n s))"
proof (cases "List.find (\<lambda>a. name (profile_at s a) = n) (array_at s (customProfiles s))")
  case None
  then show ?thesis by (simp add: getCustomProfileByName_run allocates_refl)
next
  case (Some f)
  show ?thesis
    by (rule allocatesI [where ps = "[profile_at s f]" and as = "[]"])
       (simp add: getCustomProfileByName_run Some)
qed

text \<open>
  The object a lookup returns is the newest profile object; overwriting it is, seen from the
  state before the lookup, again only an allocation.
\<close>

lemma getProfileByName_fresh:
  assumes "getProfileByName n s = (Some a, t)"
  shows "a = length (profile_objs s)" "a < length (profile_objs t)"
    "allocates s (mutate_profile a v t)"
proof -
  let ?all = "array_at s (defaultProfiles s) @ array_at s (customProfiles s)"
  from assms obtain f where
    t: "t = s\<lparr>array_objs := array_objs s @ [?all],
              profile_objs := profile_objs s @ [profile_at s f]\<rparr>"
    and a: "a = length (profile_objs s)"
    by (auto simp add: getProfileByName_run Let_def split: option.splits)
  show "a = length (profile_objs s)" by (rule a)
  show "a < length (profile_objs t)" by (simp add: a t)
  show "allocates s (mutate_profile a v t)"
    by (rule allocatesI [where ps = "[v]" and as = "[?all]"]) (simp add: a t mutate_profile_def)
qed

lemma getCustomProfileByName_fresh:
  assumes "getCustomProfileByName n s = (Some a, t)"
  shows "a = length (profile_objs s)" "a < length (profile_objs t)"
    "allocates s (mutate_profile a v t)"
proof -
  from assms obtain f where
    t: "t = s\<lparr>profile_objs := profile_objs s @ [profile_at s f]\<rparr>"
    and a: "a = length (profile_objs s)"
    by (auto simp add: getCustomProfileByName_run split: option.splits)
  show "a = length (profile_objs s)" by (rule a)
  show "a < length (profile_objs t)" by (simp add: a t)
  show "allocates s (mutate_profile a v t)"
    by (rule allocatesI [where ps = "[v]" and as = "[]"]) (simp add: a t mutate_profile_def)
qed

lemma lookup_none_iff:
  "fst (getProfileByName n s) = None \<longleftrightarrow>
     n \<notin> name ` set (profiles_of s (defaultProfiles s) @ profiles_of s (customProfiles s))"
proof -
  have "fst (getProfileByName n s) = None \<longleftrightarrow> lookup_content (getProfileByName n s) = None"
    by (simp add: lookup_content_def)
  also have "\<dots> \<longleftrightarrow>
     n \<notin> name ` set (profiles_of s (defaultProfiles s) @ profiles_of s (customProfiles s))"
    unfolding getProfileByName_content by (auto simp add: find_None_iff)
  finally show ?thesis .
qed

text \<open>
  C1. The claim that every accessor returns a defensive deep copy does not hold.
  \<open>getSettings\<close> and \<open>getCustomProfiles\<close> return the stored object, and
  \<open>getAllProfiles\<close> returns a new array of the stored profile objects. In the example, a
  caller who overwrites the settings object it got from \<open>getSettings\<close> changes what
  \<open>getSettings\<close> shows next (AC is mapped to Quiet instead of Office); overwriting the first
  element of \<open>getCustomProfiles()\<close> or of \<open>getAllProfiles()\<close>, or emptying the array
  \<open>getCustomProfiles()\<close> returned, changes the stored collections.
\<close>

theorem getters_share_stored_objects:
  "stateMap (settings_at example_service (getSettings example_service)) ''AC'' = Some ''Office''
   \<and> stateMap
        (settings_at
           (mutate_settings (getSettings example_service)
              \<lparr>stateMap = [''AC'' \<mapsto> ''Quiet''], settings_fields = ()\<rparr> example_service)
           (getSettings
              (mutate_settings (getSettings example_service)
                 \<lparr>stateMap = [''AC'' \<mapsto> ''Quiet''], settings_fields = ()\<rparr> example_service)))
        ''AC'' = Some ''Quiet''
   \<and> profiles_of example_service (getCustomProfiles example_service)
       = [\<lparr>name = ''Work'', profile_fields = 2\<rparr>, \<lparr>name = ''Game'', profile_fields = 3\<rparr>]
   \<and> profiles_of
        (mutate_profile (array_at example_service (getCustomProfiles example_service) ! 0)
           \<lparr>name = ''Work'', profile_fields = 99\<rparr> example_service)
        (getCustomProfiles
           (mutate_profile (array_at example_service (getCustomProfiles example_service) ! 0)
              \<lparr>name = ''Work'', profile_fields = 99\<rparr> example_service))
       = [\<lparr>name = ''Work'', profile_fields = 99\<rparr>, \<lparr>name = ''Game'', profile_fields = 3\<rparr>]
   \<and> profiles_of
        (mutate_array (getCustomProfiles example_service) [] example_service)
        (getCustomProfiles (mutate_array (getCustomProfiles example_service) [] example_service))
       = []
   \<and> array_content (getAllProfiles example_service)
       = [\<lparr>name = ''Office'', profile_fields = 1\<rparr>, \<lparr>name = ''Work'', profile_fields = 2\<rparr>,
          \<lparr>name = ''Game'', profile_fields = 3\<rparr>]
   \<and> array_content
        (getAllProfiles
           (mutate_profile
              (array_at (snd (getAllProfiles example_service)) (fst (getAllProfiles example_service)) ! 0)
              \<lparr>name = ''Office'', profile_fields = 99\<rparr> (snd (getAllProfiles example_service))))
       = [\<lparr>name = ''Office'', profile_fields = 99\<rparr>, \<lparr>name = ''Work'', profile_fields = 2\<rparr>,
          \<lparr>name = ''Game'', profile_fields = 3\<rparr>]"
  by (simp add: example_service_def getSettings_def getCustomProfiles_def getAllProfiles_def
      new_array_def mutate_settings_def mutate_profile_def mutate_array_def settings_at_def
      profiles_of_def profile_at_def array_at_def array_content_def)

text \<open>
  C1, as the code has it. \<open>getProfileByName\<close> and \<open>getCustomProfileByName\<close> return a copy:
  in a store that is in order, the lookup itself leaves the mirror's content as it was, and
  whatever a caller then writes into the returned object \<open>a\<close> changes neither the mirror's
  references, nor the objects its collections hold, nor the content that \<open>getSettings\<close>,
  \<open>getDefaultProfiles\<close>, \<open>getCustomProfiles\<close>, \<open>getAllProfiles\<close>, \<open>getProfileByName\<close> and
  \<open>getCustomProfileByName\<close> show afterwards. \<open>getSettings\<close>, \<open>getCustomProfiles\<close> and
  \<open>getDefaultProfiles\<close> return the stored reference, and the array of \<open>getAllProfiles\<close>
  holds the stored profile objects.
\<close>

theorem catalog_lookup_returns_copy:
  assumes ok: "store_ok s"
    and call: "getProfileByName n s = (Some a, t) \<or> getCustomProfileByName n s = (Some a, t)"
  shows
    "let u = mutate_profile a v t
     in mirror_content t = mirror_content s
        \<and> mirror_content u = mirror_content t
        \<and> settings u = settings t
        \<and> defaultProfiles u = defaultProfiles t
        \<and> customProfiles u = customProfiles t
        \<and> array_at u (defaultProfiles u) = array_at t (defaultProfiles t)
        \<and> array_at u (customProfiles u) = array_at t (customProfiles t)
        \<and> array_content (getAllProfiles u) = array_content (getAllProfiles t)
        \<and> (\<forall>m. lookup_content (getProfileByName m u) = lookup_content (getProfileByName m t))
        \<and> (\<forall>m. lookup_content (getCustomProfileByName m u)
                 = lookup_content (getCustomProfileByName m t))
        \<and> getSettings s = settings s
        \<and> getCustomProfiles s = customProfiles s
        \<and> getDefaultProfiles s = defaultProfiles s
        \<and> array_at (snd (getAllProfiles s)) (fst (getAllProfiles s))
             = array_at s (defaultProfiles s) @ array_at s (customProfiles s)"
proof -
  let ?u = "mutate_profile a v t"
  from call have at: "allocates s t"
  proof
    assume "getProfileByName n s = (Some a, t)"
    then have "t = snd (getProfileByName n s)" by simp
    then show ?thesis by (simp add: getProfileByName_allocates)
  next
    assume "getCustomProfileByName n s = (Some a, t)"
    then have "t = snd (getCustomProfileByName n s)" by simp
    then show ?thesis by (simp add: getCustomProfileByName_allocates)
  qed
  from call have au: "allocates s ?u"
    using getProfileByName_fresh(3) getCustomProfileByName_fresh(3) by blast
  note ft = allocates_fields [OF at] and fu = allocates_fields [OF au]
  note mt = allocates_mirror [OF ok at, unfolded ft]
    and mu = allocates_mirror [OF ok au, unfolded fu]
  have plain: "getSettings s = settings s \<and> getCustomProfiles s = customProfiles s
      \<and> getDefaultProfiles s = defaultProfiles s
      \<and> array_at (snd (getAllProfiles s)) (fst (getAllProfiles s))
           = array_at s (defaultProfiles s) @ array_at s (customProfiles s)"
    by (simp add: getSettings_def getCustomProfiles_def getDefaultProfiles_def getAllProfiles_def
        new_array_def array_at_def)
  show ?thesis
    unfolding Let_def
    using plain
    by (simp add: mt mu ft fu getAllProfiles_content getProfileByName_content
        getCustomProfileByName_content)
qed

theorem catalog_lookup_returns_copy_witness:
  "store_ok example_service
   \<and> getProfileByName ''Work'' example_service
       = (Some 3, snd (getProfileByName ''Work'' example_service))
   \<and> profile_at (snd (getProfileByName ''Work'' example_service)) 3
       = \<lparr>name = ''Work'', profile_fields = 2\<rparr>
   \<and> mirror_content
        (mutate_profile 3 \<lparr>name = ''Work'', profile_fields = 99\<rparr>
           (snd (getProfileByName ''Work'' example_service)))
       = mirror_content example_service
   \<and> lookup_content (getProfileByName ''Work''
        (mutate_profile 3 \<lparr>name = ''Work'', profile_fields = 99\<rparr>
           (snd (getProfileByName ''Work'' example_service))))
       = Some \<lparr>name = ''Work'', profile_fields = 2\<rparr>"
proof -
  have c: "getProfileByName ''Work'' example_service
       = (Some 3, snd (getProfileByName ''Work'' example_service))"
    by (simp add: getProfileByName_run Let_def)
       (simp add: example_service_def profile_at_def array_at_def)
  have p: "profile_at (snd (getProfileByName ''Work'' example_service)) 3
       = \<lparr>name = ''Work'', profile_fields = 2\<rparr>"
    by (simp add: getProfileByName_run Let_def)
       (simp add: example_service_def profile_at_def array_at_def)
  have l: "lookup_content (getProfileByName ''Work'' example_service)
       = Some \<lparr>name = ''Work'', profile_fields = 2\<rparr>"
    by (simp add: getProfileByName_content example_profiles)
  note al = getProfileByName_allocates [of example_service "''Work''"]
  have lt: "lookup_content (getProfileByName ''Work''
        (snd (getProfileByName ''Work'' example_service)))
       = Some \<lparr>name = ''Work'', profile_fields = 2\<rparr>"
    by (simp add: getProfileByName_content
        allocates_mirror(1,2) [OF example_store_ok al, unfolded allocates_fields [OF al]]
        allocates_fields [OF al] example_profiles)
  show ?thesis
    using catalog_lookup_returns_copy [OF example_store_ok disjI1 [OF c],
        of "\<lparr>name = ''Work'', profile_fields = 99\<rparr>"] c p lt example_store_ok
    by (simp add: Let_def)
qed

subsection \<open>Edit session\<close>

lemma editProfileChanges_draft:
  "currentProfileEdit s = Some d \<Longrightarrow>
     editProfileChanges s \<longleftrightarrow>
       \<not> (0 \<le> currentProfileEditIndex s
          \<and> nat (currentProfileEditIndex s) < length (profiles_of s (customProfiles s))
          \<and> profiles_of s (customProfiles s) ! nat (currentProfileEditIndex s) = profile_at s d)"
  by (auto simp add: editProfileChanges_def array_get_def JSON_stringify_def profiles_of_def Let_def)

lemma setCurrentEditingProfile_found:
  assumes ok: "store_ok s" and n: "n \<in> name ` set (profiles_of s (customProfiles s))"
  defines "i \<equiv> findIndex (\<lambda>q. name q = n) (profiles_of s (customProfiles s))"
  shows "setCurrentEditingProfile (Some n) s =
     (True, s\<lparr>profile_objs := profile_objs s @ [profiles_of s (customProfiles s) ! nat i],
              currentProfileEditIndex := i,
              currentProfileEdit := Some (length (profile_objs s)),
              editingProfileSubject := editingProfileSubject s @ [Some (length (profile_objs s))],
              editingProfile := Some (length (profile_objs s))\<rparr>)"
proof -
  from n have ne: "i \<noteq> - 1" by (simp add: i_def findIndex_name_iff)
  from name_at_first_index [of n "profiles_of s (customProfiles s)"] ne
  have rng: "0 \<le> i" "nat i < length (array_at s (customProfiles s))"
    by (simp_all add: i_def profiles_of_def)
  have idx: "findIndex (\<lambda>e. name (profile_at s e) = n) (array_at s (customProfiles s)) = i"
    by (simp add: i_def findIndex_profiles)
  have idx': "findIndex (\<lambda>e. name (profile_objs s ! e) = n) (array_objs s ! customProfiles s) = i"
    using idx by (simp add: profile_at_def array_at_def)
  have v: "profiles_of s (customProfiles s) ! nat i
     = profile_objs s ! (array_objs s ! customProfiles s ! nat i)"
    using rng by (simp add: profiles_of_def profile_at_def array_at_def)
  show ?thesis
    using ne
    by (simp add: setCurrentEditingProfile_def Let_def new_profile_def copyConfig_def
        profile_at_def array_at_def idx' v)
qed

text \<open>
  The two ways in which \<open>setCurrentEditingProfile\<close> reports failure: an unknown name only
  overwrites the index, an undefined name also clears the draft and publishes that.
\<close>

lemma setCurrentEditingProfile_not_found:
  assumes "n \<notin> name ` set (profiles_of s (customProfiles s))"
  shows "setCurrentEditingProfile (Some n) s = (False, s\<lparr>currentProfileEditIndex := - 1\<rparr>)"
proof -
  from assms have "findIndex (\<lambda>e. name (profile_at s e) = n) (array_at s (customProfiles s)) = - 1"
    by (simp add: findIndex_profiles findIndex_name_iff)
  then show ?thesis by (simp add: setCurrentEditingProfile_def Let_def)
qed

lemma setCurrentEditingProfile_undefined:
  "setCurrentEditingProfile None s =
     (False, s\<lparr>currentProfileEditIndex := - 1,
               currentProfileEdit := None,
               editingProfileSubject := editingProfileSubject s @ [None],
               editingProfile := None\<rparr>)"
proof -
  have "findIndex (\<lambda>e. False) xs = - 1" for xs :: "addr list"
    by (induction xs) simp_all
  then show ?thesis by (simp add: setCurrentEditingProfile_def Let_def)
qed

text \<open>
  C4. \<open>setCurrentEditingProfile(name)\<close> with a name that matches no custom profile returns
  false, and the claim says that no draft is left. Evaluated on the example session that
  edits Work: the call with the name Missing returns false and sets the index to \<open>-1\<close>, but
  the draft (object 3) is still the current editing profile. Only the branch for an
  undefined name clears the draft.
\<close>

theorem setCurrentEditingProfile_unknown_name_keeps_draft:
  "getCurrentEditingProfile example_editing = Some 3
   \<and> fst (setCurrentEditingProfile (Some ''Missing'') example_editing) = False
   \<and> getCurrentEditingProfile (snd (setCurrentEditingProfile (Some ''Missing'') example_editing))
       = Some 3
   \<and> currentProfileEditIndex (snd (setCurrentEditingProfile (Some ''Missing'') example_editing))
       = - 1"
  by (simp add: example_editing_eval getCurrentEditingProfile_def setCurrentEditingProfile_def
      Let_def profile_at_def array_at_def)
     (simp add: example_service_def)

text \<open>
  C5. \<open>editProfileChanges\<close> is false when no draft is set. When a draft is set, it is true
  if and only if the draft differs from the custom profile stored at the captured index,
  where an index with no profile behind it counts as a difference. Immediately after
  \<open>setCurrentEditingProfile(name)\<close> for the name of a custom profile (in a store that is in
  order) the call has succeeded, a draft is set and \<open>editProfileChanges\<close> is false.
\<close>

theorem editProfileChanges_diff:
  "(currentProfileEdit s = None \<longrightarrow> \<not> editProfileChanges s) \<and>
   (\<forall>d. currentProfileEdit s = Some d \<longrightarrow>
      (editProfileChanges s \<longleftrightarrow>
         \<not> (0 \<le> currentProfileEditIndex s
            \<and> nat (currentProfileEditIndex s) < length (profiles_of s (customProfiles s))
            \<and> profiles_of s (customProfiles s) ! nat (currentProfileEditIndex s)
                = profile_at s d))) \<and>
   (store_ok s \<and> n \<in> name ` set (profiles_of s (customProfiles s)) \<longrightarrow>
      fst (setCurrentEditingProfile (Some n) s)
      \<and> currentProfileEdit (snd (setCurrentEditingProfile (Some n) s)) \<noteq> None
      \<and> \<not> editProfileChanges (snd (setCurrentEditingProfile (Some n) s)))"
proof (intro conjI allI impI)
  assume "currentProfileEdit s = None"
  then show "\<not> editProfileChanges s" by (simp add: editProfileChanges_def)
next
  fix d assume "currentProfileEdit s = Some d"
  then show "editProfileChanges s \<longleftrightarrow>
         \<not> (0 \<le> currentProfileEditIndex s
            \<and> nat (currentProfileEditIndex s) < length (profiles_of s (customProfiles s))
            \<and> profiles_of s (customProfiles s) ! nat (currentProfileEditIndex s)
                = profile_at s d)"
    by (rule editProfileChanges_draft)
next
  assume a: "store_ok s \<and> n \<in> name ` set (profiles_of s (customProfiles s))"
  let ?cps = "profiles_of s (customProfiles s)"
  let ?i = "findIndex (\<lambda>q. name q = n) ?cps"
  let ?s' = "snd (setCurrentEditingProfile (Some n) s)"
  from a have eq: "setCurrentEditingProfile (Some n) s =
     (True, s\<lparr>profile_objs := profile_objs s @ [?cps ! nat ?i],
              currentProfileEditIndex := ?i,
              currentProfileEdit := Some (length (profile_objs s)),
              editingProfileSubject := editingProfileSubject s @ [Some (length (profile_objs s))],
              editingProfile := Some (length (profile_objs s))\<rparr>)"
    using setCurrentEditingProfile_found [of s n] by simp
  show "fst (setCurrentEditingProfile (Some n) s)" by (simp add: eq)
  show "currentProfileEdit ?s' \<noteq> None" by (simp add: eq)
  from a have ne: "?i \<noteq> - 1" by (simp add: findIndex_name_iff)
  from name_at_first_index [OF ne] have rng: "0 \<le> ?i" "nat ?i < length ?cps" by simp_all
  then have len: "nat ?i < length (array_at s (customProfiles s))" by (simp add: profiles_of_def)
  then have "array_at s (customProfiles s) ! nat ?i \<in> set (array_at s (customProfiles s))"
    by simp
  with a have alloc: "array_at s (customProfiles s) ! nat ?i < length (profile_objs s)"
    by (simp add: store_ok_def)
  have d: "currentProfileEdit ?s' = Some (length (profile_objs s))" by (simp add: eq)
  have same: "profiles_of ?s' (customProfiles ?s') ! nat (currentProfileEditIndex ?s')
      = profile_at ?s' (length (profile_objs s))"
    using len alloc
    by (simp add: eq profiles_of_def profile_at_def array_at_def nth_append)
  have "0 \<le> currentProfileEditIndex ?s'
      \<and> nat (currentProfileEditIndex ?s') < length (profiles_of ?s' (customProfiles ?s'))"
    using rng by (simp add: eq profiles_of_def array_at_def)
  with same show "\<not> editProfileChanges ?s'"
    unfolding editProfileChanges_draft [OF d] by simp
qed

theorem editProfileChanges_diff_witness:
  "currentProfileEdit example_service = None
   \<and> \<not> editProfileChanges example_service
   \<and> store_ok example_service
   \<and> ''Work'' \<in> name ` set (profiles_of example_service (customProfiles example_service))
   \<and> currentProfileEdit example_editing = Some 3
   \<and> \<not> editProfileChanges example_editing
   \<and> editProfileChanges (mutate_profile 3 \<lparr>name = ''Work'', profile_fields = 7\<rparr> example_editing)"
proof -
  have e: "snd (setCurrentEditingProfile (Some ''Work'') example_service) = example_editing"
    by (simp add: example_editing_def)
  have d: "currentProfileEdit example_editing = Some 3" by (simp add: example_editing_eval)
  have m: "currentProfileEdit
      (mutate_profile 3 \<lparr>name = ''Work'', profile_fields = 7\<rparr> example_editing) = Some 3"
    by (simp add: example_editing_eval mutate_profile_def)
  have c: "editProfileChanges (mutate_profile 3 \<lparr>name = ''Work'', profile_fields = 7\<rparr> example_editing)"
    unfolding editProfileChanges_diff [THEN conjunct2, THEN conjunct1, rule_format, OF m]
    by (simp add: example_editing_eval example_service_def mutate_profile_def profiles_of_def
        profile_at_def array_at_def)
  show ?thesis
    using editProfileChanges_diff [of example_service "''Work''"] example_store_ok d c
    by (simp add: e example_profiles) (simp add: example_service_def)
qed

text \<open>
  C10. When a draft is set and the captured index is outside the custom collection
  (negative, or at or past its length), \<open>editProfileChanges\<close> returns true: the lookup at the
  index gives \<open>undefined\<close>, whose serialisation differs from that of the draft.
\<close>

theorem editProfileChanges_stale_index:
  assumes "currentProfileEdit s \<noteq> None"
    and "currentProfileEditIndex s < 0
         \<or> int (length (array_at s (customProfiles s))) \<le> currentProfileEditIndex s"
  shows "editProfileChanges s"
  using assms
  by (auto simp add: editProfileChanges_def array_get_def JSON_stringify_def Let_def)

theorem editProfileChanges_stale_index_witness:
  "currentProfileEdit example_stale \<noteq> None
   \<and> int (length (array_at example_stale (customProfiles example_stale)))
        \<le> currentProfileEditIndex example_stale
   \<and> editProfileChanges example_stale"
proof -
  have a: "currentProfileEdit example_stale \<noteq> None"
    by (simp add: example_stale_eval example_editing_eval)
  have b: "int (length (array_at example_stale (customProfiles example_stale)))
        \<le> currentProfileEditIndex example_stale"
    by (simp add: example_stale_eval example_editing_eval array_at_def)
  from a b editProfileChanges_stale_index [OF a disjI2 [OF b]] show ?thesis by simp
qed

subsection \<open>writeProfile\<close>

lemma property_assign_step:
  fixes m :: "string \<rightharpoonup> string" and i p n :: string
  defines "m' \<equiv> (if i = p \<and> m i = None then m else m(i \<mapsto> n))"
  shows "(if k \<in> set ids \<and> (k \<noteq> p \<or> m' k \<noteq> None) then Some n else m' k)
       = (if k \<in> set (i # ids) \<and> (k \<noteq> p \<or> m k \<noteq> None) then Some n else m k)"
proof (cases "i = p \<and> m i = None")
  case True
  then have "m' = m" by (auto simp add: m'_def)
  with True show ?thesis by auto
next
  case False
  then have m': "m' = m(i \<mapsto> n)" by (auto simp add: m'_def)
  show ?thesis
  proof (cases "k = i")
    case True
    with False show ?thesis by (auto simp add: m')
  next
    case False
    then show ?thesis by (simp add: m')
  qed
qed

lemma remap_states:
  "foldl (\<lambda>st stateId. st\<lparr>stateMap := property_assign (stateMap st) stateId n\<rparr>) sv ids
     = sv\<lparr>stateMap :=
          (\<lambda>k. if k \<in> set ids \<and> (k \<noteq> ''__proto__'' \<or> stateMap sv k \<noteq> None)
               then Some n else stateMap sv k)\<rparr>"
proof (induction ids arbitrary: sv)
  case Nil
  show ?case by simp
next
  case (Cons i ids)
  define m' where "m' = property_assign (stateMap sv) i n"
  have "foldl (\<lambda>st stateId. st\<lparr>stateMap := property_assign (stateMap st) stateId n\<rparr>) sv (i # ids)
      = foldl (\<lambda>st stateId. st\<lparr>stateMap := property_assign (stateMap st) stateId n\<rparr>)
          (sv\<lparr>stateMap := m'\<rparr>) ids"
    by (simp add: m'_def)
  also have "\<dots> = (sv\<lparr>stateMap := m'\<rparr>)\<lparr>stateMap :=
          (\<lambda>k. if k \<in> set ids
                    \<and> (k \<noteq> ''__proto__'' \<or> stateMap (sv\<lparr>stateMap := m'\<rparr>) k \<noteq> None)
               then Some n else stateMap (sv\<lparr>stateMap := m'\<rparr>) k)\<rparr>"
    by (rule Cons.IH)
  also have "\<dots> = sv\<lparr>stateMap :=
          (\<lambda>k. if k \<in> set ids \<and> (k \<noteq> ''__proto__'' \<or> m' k \<noteq> None)
               then Some n else m' k)\<rparr>"
    by (simp cong: if_cong)
  also have "(\<lambda>k. if k \<in> set ids \<and> (k \<noteq> ''__proto__'' \<or> m' k \<noteq> None)
               then Some n else m' k)
      = (\<lambda>k. if k \<in> set (i # ids) \<and> (k \<noteq> ''__proto__'' \<or> stateMap sv k \<noteq> None)
               then Some n else stateMap sv k)"
    unfolding m'_def property_assign_def by (rule ext) (rule property_assign_step)
  finally show ?case .
qed

lemma writeProfile_staged_profiles:
  "tmptccprofiles (snd (writeProfile helper cur p states s)) =
     Some (map Some
       (let cps = profiles_of s (customProfiles s);
            i = findIndex (\<lambda>q. name q = cur) cps
        in if i \<noteq> - 1
              \<and> findIndex (\<lambda>q. name q = name p) (profiles_of s (defaultProfiles s)) = - 1
              \<and> findIndex (\<lambda>q. name q = name p) cps \<in> {- 1, i}
           then cps[nat i := p] else cps))"
proof -
  let ?cps = "profiles_of s (customProfiles s)"
  let ?i = "findIndex (\<lambda>q. name q = cur) ?cps"
  have rng: "?i \<noteq> - 1 \<Longrightarrow> array_set (map Some ?cps) ?i (Some p) = map Some (?cps[nat ?i := p])"
    using findIndex_found [of "\<lambda>q. name q = cur" ?cps] by (simp add: array_set_in_range)
  have raw: "tmptccprofiles (snd (writeProfile helper cur p states s)) =
      Some (let j = findIndex (\<lambda>q. name q = name p) ?cps in
            if ?i \<noteq> - 1
                \<and> findIndex (\<lambda>q. name q = name p) (profiles_of s (defaultProfiles s)) = - 1
                \<and> (j = - 1 \<or> j = ?i)
            then array_set (map Some ?cps) ?i (Some p) else map Some ?cps)"
    by (simp add: writeProfile_def pkexecWriteConfigAsync_def exec_cmd_def writeProfiles_def
        writeSettings_def copyConfig_def Let_def findIndex_profiles split_def)
  show ?thesis
    unfolding raw Let_def using rng by (cases "?i = - 1") auto
qed

lemma writeProfile_staged_settings:
  "tmptccsettings (snd (writeProfile helper cur p states s)) =
     Some (let sv = settings_at s (settings s) in
           case states of None \<Rightarrow> sv
           | Some ids \<Rightarrow>
               sv\<lparr>stateMap :=
                    (\<lambda>k. if k \<in> set ids \<and> (k \<noteq> ''__proto__'' \<or> stateMap sv k \<noteq> None)
                         then Some (name p) else stateMap sv k)\<rparr>)"
  by (simp add: writeProfile_def pkexecWriteConfigAsync_def exec_cmd_def writeProfiles_def
      writeSettings_def copyConfig_def Let_def split_def getSettings_def remap_states
      split: option.split)

lemma writeProfile_exec_log:
  "exec_log (snd (writeProfile helper cur p states s)) =
     exec_log s @ [''pkexec '' @ tccdExec s @ '' --new_profiles /tmp/tmptccprofiles --new_settings /tmp/tmptccsettings'']"
  by (simp add: writeProfile_def pkexecWriteConfigAsync_def exec_cmd_def writeProfiles_def
      writeSettings_def Let_def split_def tccdExec_def tmpProfilesPath_def tmpSettingsPath_def)

lemma writeProfile_result:
  "fst (writeProfile helper cur p states s) =
     fst (helper (''pkexec '' @ tccdExec s @ '' --new_profiles /tmp/tmptccprofiles --new_settings /tmp/tmptccsettings'')
            (tmptccprofiles (snd (writeProfile helper cur p states s)))
            (tmptccsettings (snd (writeProfile helper cur p states s)))
            (config_settings s))"
  by (simp add: writeProfile_def pkexecWriteConfigAsync_def exec_cmd_def writeProfiles_def
      writeSettings_def Let_def split_def tccdExec_def tmpProfilesPath_def tmpSettingsPath_def
      helper_result_def)

lemma permitted_literal:
  fixes cps :: "'b ITccProfile list" and cur :: string
  assumes d: "distinct (map name cps)"
  defines "i \<equiv> findIndex (\<lambda>q. name q = cur) cps"
  shows "(i \<noteq> - 1 \<and> findIndex (\<lambda>q. name q = n) cps \<in> {- 1, i})
     \<longleftrightarrow> (cur \<in> name ` set cps \<and> (\<forall>j < length cps. name (cps ! j) = n \<longrightarrow> int j = i))"
proof
  assume l: "i \<noteq> - 1 \<and> findIndex (\<lambda>q. name q = n) cps \<in> {- 1, i}"
  then have cur: "cur \<in> name ` set cps" by (simp add: i_def findIndex_name_iff)
  from l have i: "0 \<le> i" "nat i < length cps" "name (cps ! nat i) = cur"
    using name_at_first_index [of cur cps] by (simp_all add: i_def)
  have "int j = i" if j: "j < length cps" "name (cps ! j) = n" for j
  proof -
    from j have "n \<in> name ` set cps" by (metis imageI nth_mem)
    then have "findIndex (\<lambda>q. name q = n) cps \<noteq> - 1" by (simp add: findIndex_name_iff)
    with l have e: "findIndex (\<lambda>q. name q = n) cps = i" by simp
    with l have "name (cps ! nat i) = n" using name_at_first_index [of n cps] by simp
    with j i have "map name cps ! j = map name cps ! nat i" by simp
    moreover from j i have "j < length (map name cps)" "nat i < length (map name cps)" by simp_all
    ultimately have "j = nat i" using nth_eq_iff_index_eq [OF d] by blast
    with i show ?thesis by simp
  qed
  with cur show "cur \<in> name ` set cps \<and> (\<forall>j < length cps. name (cps ! j) = n \<longrightarrow> int j = i)"
    by blast
next
  assume r: "cur \<in> name ` set cps \<and> (\<forall>j < length cps. name (cps ! j) = n \<longrightarrow> int j = i)"
  then have i: "i \<noteq> - 1" by (simp add: i_def findIndex_name_iff)
  have "findIndex (\<lambda>q. name q = n) cps = i" if ne: "findIndex (\<lambda>q. name q = n) cps \<noteq> - 1"
  proof -
    from name_at_first_index [OF ne] r
    have "int (nat (findIndex (\<lambda>q. name q = n) cps)) = i" by blast
    with name_at_first_index [OF ne] show ?thesis by simp
  qed
  with i show "i \<noteq> - 1 \<and> findIndex (\<lambda>q. name q = n) cps \<in> {- 1, i}" by blast
qed

text \<open>
  C2. \<open>writeProfile(currentName, profile, states?)\<close> stages the custom collection with
  the entry at the index of \<open>currentName\<close> replaced by \<open>profile\<close> if and only if
  \<open>currentName\<close> resolves to a custom-profile index, no built-in profile is named
  \<open>profile.name\<close>, and the custom profile found under \<open>profile.name\<close>, if any, is at
  the index being edited; otherwise it stages the collection unchanged. A name resolves to
  the first index that bears it. A permitted index lies inside the collection. Where the
  names of the custom profiles are distinct, the condition says that every custom profile
  named \<open>profile.name\<close> is at the index being edited.
\<close>

theorem writeProfile_overwrite_permitted:
  "let cps = profiles_of s (customProfiles s);
       dps = profiles_of s (defaultProfiles s);
       i = findIndex (\<lambda>q. name q = currentName) cps;
       permitted = (i \<noteq> - 1 \<and> name profile \<notin> name ` set dps
                    \<and> findIndex (\<lambda>q. name q = name profile) cps \<in> {- 1, i})
   in tmptccprofiles (snd (writeProfile helper currentName profile states s))
        = Some (map Some (if permitted then cps[nat i := profile] else cps))
      \<and> (permitted \<longrightarrow> 0 \<le> i \<and> nat i < length cps \<and> name (cps ! nat i) = currentName)
      \<and> (distinct (map name cps) \<longrightarrow>
           (permitted \<longleftrightarrow>
              currentName \<in> name ` set cps \<and> name profile \<notin> name ` set dps \<and>
              (\<forall>j < length cps. name (cps ! j) = name profile \<longrightarrow> int j = i)))"
proof -
  let ?cps = "profiles_of s (customProfiles s)"
  let ?dps = "profiles_of s (defaultProfiles s)"
  let ?i = "findIndex (\<lambda>q. name q = currentName) ?cps"
  let ?perm = "?i \<noteq> - 1 \<and> name profile \<notin> name ` set ?dps
                 \<and> findIndex (\<lambda>q. name q = name profile) ?cps \<in> {- 1, ?i}"
  have a: "tmptccprofiles (snd (writeProfile helper currentName profile states s))
        = Some (map Some (if ?perm then ?cps[nat ?i := profile] else ?cps))"
    by (simp add: writeProfile_staged_profiles Let_def findIndex_name_iff)
  have b: "?perm \<longrightarrow> 0 \<le> ?i \<and> nat ?i < length ?cps \<and> name (?cps ! nat ?i) = currentName"
    using name_at_first_index [of currentName ?cps] by blast
  have c: "?perm \<longleftrightarrow>
              currentName \<in> name ` set ?cps \<and> name profile \<notin> name ` set ?dps \<and>
              (\<forall>j < length ?cps. name (?cps ! j) = name profile \<longrightarrow> int j = ?i)"
    if "distinct (map name ?cps)"
    using permitted_literal [OF that, of currentName "name profile"] by blast
  from a b c show ?thesis unfolding Let_def by blast
qed

theorem writeProfile_overwrite_permitted_witness:
  "tmptccprofiles (snd (writeProfile helper_accepts ''Work''
      \<lparr>name = ''Work'', profile_fields = 9\<rparr> None example_service))
     = Some [Some \<lparr>name = ''Work'', profile_fields = 9\<rparr>, Some \<lparr>name = ''Game'', profile_fields = 3\<rparr>]
   \<and> tmptccprofiles (snd (writeProfile helper_accepts ''Work''
      \<lparr>name = ''Game'', profile_fields = 9\<rparr> None example_service))
     = Some [Some \<lparr>name = ''Work'', profile_fields = 2\<rparr>, Some \<lparr>name = ''Game'', profile_fields = 3\<rparr>]
   \<and> distinct (map name (profiles_of example_service (customProfiles example_service)))"
  using writeProfile_overwrite_permitted [where s = example_service and currentName = "''Work''"
      and profile = "\<lparr>name = ''Work'', profile_fields = 9\<rparr>" and helper = helper_accepts
      and states = None]
    writeProfile_overwrite_permitted [where s = example_service and currentName = "''Work''"
      and profile = "\<lparr>name = ''Game'', profile_fields = 9\<rparr>" and helper = helper_accepts
      and states = None]
  by (simp add: example_profiles Let_def)

text \<open>
  C3. The claim that \<open>writeProfile("A", {name: "B", ...})\<close> fails when \<open>B\<close> names another
  existing profile does not hold: in the example, Work is renamed to Game, the name of the
  second custom profile, and the call resolves to true as soon as the helper succeeds.
\<close>

theorem writeProfile_collision_counterexample:
  "name (profile_at example_service 1) = ''Work''
   \<and> name (profile_at example_service 2) = ''Game''
   \<and> array_at example_service (customProfiles example_service) = [1, 2]
   \<and> fst (writeProfile helper_accepts ''Work'' \<lparr>name = ''Game'', profile_fields = 9\<rparr> None
           example_service) = True"
  by (simp add: writeProfile_result helper_accepts_def)
     (simp add: example_service_def profile_at_def array_at_def)

text \<open>
  C3, as the code has it. When \<open>profile.name\<close> names a built-in profile, or differs from
  \<open>currentName\<close> and names a custom profile, the custom collection is staged unchanged
  (so the entry named \<open>currentName\<close> goes to the daemon with its prior field values), no
  profile object and no array of the store is changed, and the call resolves to the
  helper's success indicator for the staged payloads.
\<close>

theorem writeProfile_collision_stages_unchanged:
  assumes "name profile \<in> name ` set (profiles_of s (defaultProfiles s)) \<or>
           (name profile \<noteq> currentName \<and> name profile \<in> name ` set (profiles_of s (customProfiles s)))"
  shows "let r = writeProfile helper currentName profile states s;
             cps = profiles_of s (customProfiles s)
         in tmptccprofiles (snd r) = Some (map Some cps)
            \<and> profile_objs (snd r) = profile_objs s \<and> array_objs (snd r) = array_objs s
            \<and> fst r = fst (helper (''pkexec '' @ tccdExec s @ '' --new_profiles /tmp/tmptccprofiles --new_settings /tmp/tmptccsettings'')
                         (Some (map Some cps)) (tmptccsettings (snd r)) (config_settings s))"
proof -
  let ?cps = "profiles_of s (customProfiles s)"
  let ?i = "findIndex (\<lambda>q. name q = currentName) ?cps"
  let ?j = "findIndex (\<lambda>q. name q = name profile) ?cps"
  have blocked: "\<not> (?i \<noteq> - 1
        \<and> findIndex (\<lambda>q. name q = name profile) (profiles_of s (defaultProfiles s)) = - 1
        \<and> ?j \<in> {- 1, ?i})"
  proof
    assume p: "?i \<noteq> - 1
        \<and> findIndex (\<lambda>q. name q = name profile) (profiles_of s (defaultProfiles s)) = - 1
        \<and> ?j \<in> {- 1, ?i}"
    then have nd: "name profile \<notin> name ` set (profiles_of s (defaultProfiles s))"
      by (simp add: findIndex_name_iff)
    with assms have c: "name profile \<noteq> currentName" "name profile \<in> name ` set ?cps" by blast+
    from c(2) have "?j \<noteq> - 1" by (simp add: findIndex_name_iff)
    with p have e: "?j = ?i" by simp
    from p name_at_first_index [of currentName ?cps] have "name (?cps ! nat ?i) = currentName" by blast
    moreover from \<open>?j \<noteq> - 1\<close> name_at_first_index [of "name profile" ?cps]
    have "name (?cps ! nat ?j) = name profile" by blast
    ultimately show False using e c(1) by simp
  qed
  have staged: "tmptccprofiles (snd (writeProfile helper currentName profile states s)) = Some (map Some ?cps)"
    unfolding writeProfile_staged_profiles Let_def if_not_P [OF blocked] ..
  have store: "profile_objs (snd (writeProfile helper currentName profile states s)) = profile_objs s"
     "array_objs (snd (writeProfile helper currentName profile states s)) = array_objs s"
    by (simp_all add: writeProfile_def pkexecWriteConfigAsync_def exec_cmd_def writeProfiles_def
      writeSettings_def Let_def split_def)
  show ?thesis
    unfolding Let_def using staged store writeProfile_result [of helper currentName profile states s]
    by simp
qed

theorem writeProfile_collision_stages_unchanged_witness:
  "(''Game'' \<noteq> ''Work''
      \<and> ''Game'' \<in> name ` set (profiles_of example_service (customProfiles example_service)))
   \<and> tmptccprofiles (snd (writeProfile helper_accepts ''Work''
          \<lparr>name = ''Game'', profile_fields = 9\<rparr> None example_service))
       = Some [Some \<lparr>name = ''Work'', profile_fields = 2\<rparr>, Some \<lparr>name = ''Game'', profile_fields = 3\<rparr>]
   \<and> fst (writeProfile helper_declines ''Work''
          \<lparr>name = ''Game'', profile_fields = 9\<rparr> None example_service) = False"
proof -
  have h: "''Game'' \<noteq> ''Work''
      \<and> ''Game'' \<in> name ` set (profiles_of example_service (customProfiles example_service))"
    by (simp add: example_profiles)
  then have h': "name \<lparr>name = ''Game'', profile_fields = 9::nat\<rparr>
        \<in> name ` set (profiles_of example_service (defaultProfiles example_service)) \<or>
      (name \<lparr>name = ''Game'', profile_fields = 9::nat\<rparr> \<noteq> ''Work'' \<and>
       name \<lparr>name = ''Game'', profile_fields = 9::nat\<rparr>
         \<in> name ` set (profiles_of example_service (customProfiles example_service)))"
    by simp
  show ?thesis
    using h writeProfile_collision_stages_unchanged [OF h', of helper_accepts None]
      writeProfile_collision_stages_unchanged [OF h', of helper_declines None]
    by (simp add: example_profiles Let_def helper_declines_def)
qed

text \<open>
  C9. The claim that every state of \<open>states\<close> is remapped to \<open>profile.name\<close> does not hold
  for the state \<open>__proto__\<close>: in the example, \<open>writeProfile('Missing', {name: 'Idle'},
  ['__proto__'])\<close> stages the settings exactly as they are, with no entry for that state,
  and resolves to true.
\<close>

theorem writeProfile_proto_state_counterexample:
  "''Missing'' \<notin> name ` set (profiles_of example_service (customProfiles example_service))
   \<and> settings_at example_service (settings example_service)
       = \<lparr>stateMap = [''AC'' \<mapsto> ''Office''], settings_fields = ()\<rparr>
   \<and> tmptccsettings (snd (writeProfile helper_accepts ''Missing''
          \<lparr>name = ''Idle'', profile_fields = 9\<rparr> (Some [''__proto__'']) example_service))
       = Some \<lparr>stateMap = [''AC'' \<mapsto> ''Office''], settings_fields = ()\<rparr>
   \<and> [''AC'' \<mapsto> ''Office''] ''__proto__'' \<noteq> Some ''Idle''
   \<and> fst (writeProfile helper_accepts ''Missing''
          \<lparr>name = ''Idle'', profile_fields = 9\<rparr> (Some [''__proto__'']) example_service) = True"
proof -
  have "tmptccsettings (snd (writeProfile helper_accepts ''Missing''
          \<lparr>name = ''Idle'', profile_fields = 9\<rparr> (Some [''__proto__'']) example_service))
       = Some \<lparr>stateMap = [''AC'' \<mapsto> ''Office''], settings_fields = ()\<rparr>"
    by (auto simp add: writeProfile_staged_settings example_settings fun_eq_iff)
  then show ?thesis
    by (simp add: writeProfile_result helper_accepts_def example_profiles example_settings)
qed

text \<open>
  C9, as the code has it. When \<open>currentName\<close> matches no custom profile, \<open>writeProfile\<close>
  reports no not-found failure: it stages the custom collection unchanged and the settings
  in which every state of \<open>states\<close> (if given) is mapped to \<open>profile.name\<close>, except the
  state \<open>__proto__\<close> when the state map has no entry of that name, which is left without
  one; it calls the helper once with both flags and resolves to the helper's success
  indicator.
\<close>

theorem writeProfile_unknown_name_still_escalates:
  assumes "currentName \<notin> name ` set (profiles_of s (customProfiles s))"
  shows "let r = writeProfile helper currentName profile states s;
             cps = profiles_of s (customProfiles s);
             sv = settings_at s (settings s);
             new_settings =
               (case states of
                  None \<Rightarrow> sv
                | Some ids \<Rightarrow>
                    sv\<lparr>stateMap :=
                         (\<lambda>k. if k \<in> set ids \<and> (k \<noteq> ''__proto__'' \<or> stateMap sv k \<noteq> None)
                              then Some (name profile) else stateMap sv k)\<rparr>);
             cmd = ''pkexec '' @ tccdExec s @ '' --new_profiles /tmp/tmptccprofiles --new_settings /tmp/tmptccsettings''
         in tmptccprofiles (snd r) = Some (map Some cps)
            \<and> tmptccsettings (snd r) = Some new_settings
            \<and> exec_log (snd r) = exec_log s @ [cmd]
            \<and> fst r = fst (helper cmd (Some (map Some cps)) (Some new_settings) (config_settings s))"
proof -
  from assms have "findIndex (\<lambda>q. name q = currentName) (profiles_of s (customProfiles s)) = - 1"
    by (simp add: findIndex_name_iff)
  then have staged: "tmptccprofiles (snd (writeProfile helper currentName profile states s))
      = Some (map Some (profiles_of s (customProfiles s)))"
    by (simp add: writeProfile_staged_profiles Let_def)
  show ?thesis
    unfolding Let_def
    using staged writeProfile_staged_settings [of helper currentName profile states s]
      writeProfile_exec_log [of helper currentName profile states s]
      writeProfile_result [of helper currentName profile states s]
    by (simp add: Let_def)
qed

theorem writeProfile_unknown_name_still_escalates_witness:
  "''Missing'' \<notin> name ` set (profiles_of example_service (customProfiles example_service))
   \<and> tmptccprofiles (snd (writeProfile helper_accepts ''Missing''
          \<lparr>name = ''Idle'', profile_fields = 9\<rparr> (Some [''AC'', ''__proto__'']) example_service))
       = Some [Some \<lparr>name = ''Work'', profile_fields = 2\<rparr>, Some \<lparr>name = ''Game'', profile_fields = 3\<rparr>]
   \<and> map_option (\<lambda>v. (stateMap v ''AC'', stateMap v ''__proto__''))
        (tmptccsettings (snd (writeProfile helper_accepts ''Missing''
          \<lparr>name = ''Idle'', profile_fields = 9\<rparr> (Some [''AC'', ''__proto__'']) example_service)))
       = Some (Some ''Idle'', None)
   \<and> exec_log (snd (writeProfile helper_accepts ''Missing''
          \<lparr>name = ''Idle'', profile_fields = 9\<rparr> (Some [''AC'', ''__proto__'']) example_service))
       = [''pkexec /opt/tccd --new_profiles /tmp/tmptccprofiles --new_settings /tmp/tmptccsettings'']
   \<and> fst (writeProfile helper_accepts ''Missing''
          \<lparr>name = ''Idle'', profile_fields = 9\<rparr> (Some [''AC'', ''__proto__'']) example_service) = True"
proof -
  have h: "''Missing'' \<notin> name ` set (profiles_of example_service (customProfiles example_service))"
    by (simp add: example_profiles)
  note t = writeProfile_unknown_name_still_escalates [OF h, of helper_accepts
        "\<lparr>name = ''Idle'', profile_fields = 9\<rparr>" "Some [''AC'', ''__proto__'']",
        unfolded Let_def]
  have a: "tmptccprofiles (snd (writeProfile helper_accepts ''Missing''
          \<lparr>name = ''Idle'', profile_fields = 9\<rparr> (Some [''AC'', ''__proto__'']) example_service))
       = Some [Some \<lparr>name = ''Work'', profile_fields = 2\<rparr>, Some \<lparr>name = ''Game'', profile_fields = 3\<rparr>]"
    using t [THEN conjunct1] by (simp add: example_profiles)
  have b: "map_option (\<lambda>v. (stateMap v ''AC'', stateMap v ''__proto__''))
        (tmptccsettings (snd (writeProfile helper_accepts ''Missing''
          \<lparr>name = ''Idle'', profile_fields = 9\<rparr> (Some [''AC'', ''__proto__'']) example_service)))
       = Some (Some ''Idle'', None)"
    unfolding t [THEN conjunct2, THEN conjunct1] by (simp add: example_settings)
  have c: "exec_log (snd (writeProfile helper_accepts ''Missing''
          \<lparr>name = ''Idle'', profile_fields = 9\<rparr> (Some [''AC'', ''__proto__'']) example_service))
       = [''pkexec /opt/tccd --new_profiles /tmp/tmptccprofiles --new_settings /tmp/tmptccsettings'']"
    unfolding t [THEN conjunct2, THEN conjunct2, THEN conjunct1] by (simp add: example_settings)
  have d: "fst (writeProfile helper_accepts ''Missing''
          \<lparr>name = ''Idle'', profile_fields = 9\<rparr> (Some [''AC'', ''__proto__'']) example_service) = True"
    unfolding t [THEN conjunct2, THEN conjunct2, THEN conjunct2] by (simp add: helper_accepts_def)
  show ?thesis by (intro conjI) (rule h a b c d)+
qed

subsection \<open>Committing the draft, copying a profile, assigning a profile\<close>

lemma example_unknown_eval:
  "example_unknown = example_edited\<lparr>currentProfileEditIndex := - 1\<rparr>"
proof -
  have "''Missing'' \<notin> name ` set (profiles_of example_edited (customProfiles example_edited))"
    by (simp add: example_edited_fields)
  then show ?thesis
    by (simp add: example_unknown_def setCurrentEditingProfile_not_found)
qed

lemma example_unknown_fields:
  "currentProfileEdit example_unknown = Some 3"
  "currentProfileEditIndex example_unknown = - 1"
  "profiles_of example_unknown (customProfiles example_unknown) =
     [\<lparr>name = ''Work'', profile_fields = 2\<rparr>, \<lparr>name = ''Game'', profile_fields = 3\<rparr>]"
  "profile_at example_unknown 3 = \<lparr>name = ''Work'', profile_fields = 7\<rparr>"
  "tccdExec example_unknown = ''/opt/tccd''"
  by (simp_all add: example_unknown_eval example_edited_eval example_service_def profiles_of_def
      profile_at_def array_at_def tccdExec_def)

lemma example_shrunk_eval:
  "example_shrunk = example_service
     \<lparr>profile_objs := profile_objs example_service @ [\<lparr>name = ''Game'', profile_fields = 3\<rparr>],
      array_objs := [[0], [1, 2], []],
      customProfiles := 2,
      currentProfileEdit := Some 3,
      currentProfileEditIndex := 1,
      editingProfileSubject := [Some 3], editingProfile := Some 3,
      dbus_customProfiles := 2\<rparr>"
  by (simp add: example_shrunk_def example_service_def setCurrentEditingProfile_def
      profile_at_def array_at_def new_profile_def new_array_def copyConfig_def Let_def)

lemma example_shrunk_fields:
  "currentProfileEdit example_shrunk = Some 3"
  "currentProfileEditIndex example_shrunk = 1"
  "profiles_of example_shrunk (customProfiles example_shrunk) = []"
  "profile_at example_shrunk 3 = \<lparr>name = ''Game'', profile_fields = 3\<rparr>"
  "tccdExec example_shrunk = ''/opt/tccd''"
  "exec_log example_shrunk = []"
  by (simp_all add: example_shrunk_eval example_service_def profiles_of_def
      profile_at_def array_at_def tccdExec_def)

lemma writeCurrentEditingProfile_run:
  assumes "editProfileChanges s" and "currentProfileEdit s = Some d"
  shows "writeCurrentEditingProfile helper s =
      (let payload = array_set (map Some (profiles_of s (customProfiles s)))
                       (currentProfileEditIndex s) (Some (profile_at s d));
           cmd = ''pkexec '' @ tccdExec s @ '' --new_profiles /tmp/tmptccprofiles'';
           outcome = helper cmd (Some payload) (tmptccsettings s) (config_settings s);
           escalated = s\<lparr>tmptccprofiles := Some payload,
                           exec_log := exec_log s @ [cmd],
                           config_settings := snd outcome\<rparr>
       in (fst outcome, if fst outcome then updateConfigData escalated else escalated))"
  using assms
  by (simp add: writeCurrentEditingProfile_def pkexecWriteCustomProfiles_def exec_cmd_def
      helper_result_def writeProfiles_def copyConfig_def getCurrentEditingProfile_def
      tccdExec_def tmpProfilesPath_def Let_def)

lemma array_set_from_zero:
  "0 \<le> i \<Longrightarrow>
     array_set (map Some xs) i (Some v) =
       (if nat i < length xs then map Some (xs[nat i := v])
        else map Some xs @ replicate (nat i - length xs) None @ [Some v])"
  by (simp add: array_set_def map_update)

text \<open>
  C6. The claim that a commit with changes replaces the entry at the draft's captured index
  does not hold for an index outside the collection. In the first example the session
  edits Game at index 1 and the push channel has since delivered an empty collection: the
  commit stages a hole followed by the draft. In the second example the session has a
  draft and the index \<open>-1\<close> (the state that \<open>setCurrentEditingProfile\<close> leaves for an unknown
  name): the commit returns true and stages the collection without the draft.
\<close>

theorem writeCurrentEditingProfile_stale_index_counterexample:
  "editProfileChanges example_shrunk
   \<and> currentProfileEdit example_shrunk = Some 3
   \<and> profile_at example_shrunk 3 = \<lparr>name = ''Game'', profile_fields = 3\<rparr>
   \<and> currentProfileEditIndex example_shrunk = 1
   \<and> profiles_of example_shrunk (customProfiles example_shrunk) = []
   \<and> tmptccprofiles (snd (writeCurrentEditingProfile helper_accepts example_shrunk))
       = Some [None, Some \<lparr>name = ''Game'', profile_fields = 3\<rparr>]
   \<and> editProfileChanges example_unknown
   \<and> currentProfileEdit example_unknown = Some 3
   \<and> profile_at example_unknown 3 = \<lparr>name = ''Work'', profile_fields = 7\<rparr>
   \<and> currentProfileEditIndex example_unknown = - 1
   \<and> profiles_of example_unknown (customProfiles example_unknown)
       = [\<lparr>name = ''Work'', profile_fields = 2\<rparr>, \<lparr>name = ''Game'', profile_fields = 3\<rparr>]
   \<and> fst (writeCurrentEditingProfile helper_accepts example_unknown) = True
   \<and> tmptccprofiles (snd (writeCurrentEditingProfile helper_accepts example_unknown))
       = Some [Some \<lparr>name = ''Work'', profile_fields = 2\<rparr>, Some \<lparr>name = ''Game'', profile_fields = 3\<rparr>]"
proof -
  have c1: "editProfileChanges example_shrunk"
    by (simp add: editProfileChanges_draft [OF example_shrunk_fields(1)] example_shrunk_fields)
  have c2: "editProfileChanges example_unknown"
    by (simp add: editProfileChanges_draft [OF example_unknown_fields(1)] example_unknown_fields)
  note r1 = writeCurrentEditingProfile_run [OF c1 example_shrunk_fields(1), of helper_accepts]
  note r2 = writeCurrentEditingProfile_run [OF c2 example_unknown_fields(1), of helper_accepts]
  have s1: "tmptccprofiles (snd (writeCurrentEditingProfile helper_accepts example_shrunk))
       = Some [None, Some \<lparr>name = ''Game'', profile_fields = 3\<rparr>]"
    by (simp add: r1 Let_def example_shrunk_fields array_set_def)
  have s2: "tmptccprofiles (snd (writeCurrentEditingProfile helper_accepts example_unknown))
       = Some [Some \<lparr>name = ''Work'', profile_fields = 2\<rparr>, Some \<lparr>name = ''Game'', profile_fields = 3\<rparr>]"
    by (simp add: r2 Let_def example_unknown_fields array_set_def)
  have f2: "fst (writeCurrentEditingProfile helper_accepts example_unknown) = True"
    by (simp add: r2 Let_def helper_accepts_def)
  show ?thesis
    using c1 c2 s1 s2 f2 by (simp add: example_shrunk_fields example_unknown_fields)
qed

text \<open>
  C6, as the code has it. \<open>writeCurrentEditingProfile\<close> returns false and leaves every part
  of the state as it was (nothing staged, no helper call) when \<open>editProfileChanges\<close> is
  false. When it is true and the captured index is not negative, the draft is assigned at
  that index of a copy of the custom collection: an index inside the collection has its
  entry replaced, an index at or past the end makes the copy grow up to it, the positions in
  between serialised as \<open>null\<close>. That collection is staged (the settings file is left alone),
  the helper is called once with \<open>--new_profiles\<close> and its success is returned. The store
  and the draft stay as they are. Exactly when the helper succeeds the mirror is refreshed:
  the custom profiles become the push channel's, the settings are read anew, and one value
  goes out on the settings stream; otherwise the mirror's references and the stream are
  unchanged.
\<close>

theorem writeCurrentEditingProfile_commit:
  "(\<not> editProfileChanges s \<longrightarrow> writeCurrentEditingProfile helper s = (False, s)) \<and>
   (\<forall>d. editProfileChanges s \<and> currentProfileEdit s = Some d
        \<and> 0 \<le> currentProfileEditIndex s \<longrightarrow>
      (let cps = profiles_of s (customProfiles s);
           i = nat (currentProfileEditIndex s);
           payload = (if i < length cps then map Some (cps[i := profile_at s d])
                      else map Some cps @ replicate (i - length cps) None
                             @ [Some (profile_at s d)]);
           cmd = ''pkexec '' @ tccdExec s @ '' --new_profiles /tmp/tmptccprofiles'';
           outcome = helper cmd (Some payload) (tmptccsettings s) (config_settings s);
           r = writeCurrentEditingProfile helper s
       in fst r = fst outcome
          \<and> tmptccprofiles (snd r) = Some payload
          \<and> tmptccsettings (snd r) = tmptccsettings s
          \<and> exec_log (snd r) = exec_log s @ [cmd]
          \<and> profile_objs (snd r) = profile_objs s
          \<and> array_objs (snd r) = array_objs s
          \<and> currentProfileEdit (snd r) = currentProfileEdit s
          \<and> settingsSubject (snd r)
               = settingsSubject s @ (if fst outcome then [settings (snd r)] else [])
          \<and> (if fst outcome
              then customProfiles (snd r) = dbus_customProfiles s
                   \<and> settings_at (snd r) (settings (snd r)) = snd outcome
              else customProfiles (snd r) = customProfiles s
                   \<and> settings (snd r) = settings s)))"
proof (intro conjI allI impI)
  assume "\<not> editProfileChanges s"
  then show "writeCurrentEditingProfile helper s = (False, s)"
    by (simp add: writeCurrentEditingProfile_def)
next
  fix d
  assume a: "editProfileChanges s \<and> currentProfileEdit s = Some d
      \<and> 0 \<le> currentProfileEditIndex s"
  let ?cps = "profiles_of s (customProfiles s)"
  let ?i = "nat (currentProfileEditIndex s)"
  let ?payload = "if ?i < length ?cps then map Some (?cps[?i := profile_at s d])
                  else map Some ?cps @ replicate (?i - length ?cps) None @ [Some (profile_at s d)]"
  let ?cmd = "''pkexec '' @ tccdExec s @ '' --new_profiles /tmp/tmptccprofiles''"
  let ?out = "helper ?cmd (Some ?payload) (tmptccsettings s) (config_settings s)"
  let ?esc = "s\<lparr>tmptccprofiles := Some ?payload, exec_log := exec_log s @ [?cmd],
                 config_settings := snd ?out\<rparr>"
  from a have p: "array_set (map Some ?cps) (currentProfileEditIndex s) (Some (profile_at s d))
      = ?payload"
    by (simp only: array_set_from_zero)
  from a have run: "writeCurrentEditingProfile helper s
      = (fst ?out, if fst ?out then updateConfigData ?esc else ?esc)"
    using writeCurrentEditingProfile_run [of s d helper] unfolding Let_def p by simp
  show "let cps = profiles_of s (customProfiles s);
           i = nat (currentProfileEditIndex s);
           payload = (if i < length cps then map Some (cps[i := profile_at s d])
                      else map Some cps @ replicate (i - length cps) None
                             @ [Some (profile_at s d)]);
           cmd = ''pkexec '' @ tccdExec s @ '' --new_profiles /tmp/tmptccprofiles'';
           outcome = helper cmd (Some payload) (tmptccsettings s) (config_settings s);
           r = writeCurrentEditingProfile helper s
       in fst r = fst outcome
          \<and> tmptccprofiles (snd r) = Some payload
          \<and> tmptccsettings (snd r) = tmptccsettings s
          \<and> exec_log (snd r) = exec_log s @ [cmd]
          \<and> profile_objs (snd r) = profile_objs s
          \<and> array_objs (snd r) = array_objs s
          \<and> currentProfileEdit (snd r) = currentProfileEdit s
          \<and> settingsSubject (snd r)
               = settingsSubject s @ (if fst outcome then [settings (snd r)] else [])
          \<and> (if fst outcome
              then customProfiles (snd r) = dbus_customProfiles s
                   \<and> settings_at (snd r) (settings (snd r)) = snd outcome
              else customProfiles (snd r) = customProfiles s
                   \<and> settings (snd r) = settings s)"
    unfolding Let_def run
    by (simp add: updateConfigData_mirror(1,2,4) updateConfigData_fresh_settings)
qed

theorem writeCurrentEditingProfile_commit_witness:
  "\<not> editProfileChanges example_service
   \<and> writeCurrentEditingProfile helper_accepts example_service = (False, example_service)
   \<and> editProfileChanges example_edited
   \<and> currentProfileEdit example_edited = Some 3
   \<and> 0 \<le> currentProfileEditIndex example_edited
   \<and> fst (writeCurrentEditingProfile helper_accepts example_edited) = True
   \<and> tmptccprofiles (snd (writeCurrentEditingProfile helper_accepts example_edited))
       = Some [Some \<lparr>name = ''Work'', profile_fields = 7\<rparr>, Some \<lparr>name = ''Game'', profile_fields = 3\<rparr>]
   \<and> exec_log (snd (writeCurrentEditingProfile helper_accepts example_edited))
       = [''pkexec /opt/tccd --new_profiles /tmp/tmptccprofiles'']
   \<and> settingsSubject (snd (writeCurrentEditingProfile helper_accepts example_edited))
       = [0, settings (snd (writeCurrentEditingProfile helper_accepts example_edited))]
   \<and> customProfiles (snd (writeCurrentEditingProfile helper_accepts example_edited)) = 1
   \<and> fst (writeCurrentEditingProfile helper_declines example_edited) = False
   \<and> settingsSubject (snd (writeCurrentEditingProfile helper_declines example_edited)) = [0]
   \<and> settings (snd (writeCurrentEditingProfile helper_declines example_edited)) = 0
   \<and> editProfileChanges example_shrunk
   \<and> currentProfileEdit example_shrunk = Some 3
   \<and> 0 \<le> currentProfileEditIndex example_shrunk
   \<and> tmptccprofiles (snd (writeCurrentEditingProfile helper_declines example_shrunk))
       = Some [None, Some \<lparr>name = ''Game'', profile_fields = 3\<rparr>]"
proof -
  have n: "\<not> editProfileChanges example_service"
    by (simp add: editProfileChanges_def example_service_def)
  have c: "editProfileChanges example_edited \<and> currentProfileEdit example_edited = Some 3
      \<and> 0 \<le> currentProfileEditIndex example_edited"
    by (simp add: editProfileChanges_draft [OF example_edited_fields(1)] example_edited_fields)
  have k: "editProfileChanges example_shrunk \<and> currentProfileEdit example_shrunk = Some 3
      \<and> 0 \<le> currentProfileEditIndex example_shrunk"
    by (simp add: editProfileChanges_draft [OF example_shrunk_fields(1)] example_shrunk_fields)
  note idle = writeCurrentEditingProfile_commit [THEN conjunct1, rule_format, OF n, of helper_accepts]
  note yes = writeCurrentEditingProfile_commit
      [THEN conjunct2, rule_format, OF c, of helper_accepts, unfolded Let_def]
  note no = writeCurrentEditingProfile_commit
      [THEN conjunct2, rule_format, OF c, of helper_declines, unfolded Let_def]
  note past = writeCurrentEditingProfile_commit
      [THEN conjunct2, rule_format, OF k, of helper_declines, unfolded Let_def]
  have e: "dbus_customProfiles example_edited = 1" "settings example_edited = 0"
    by (simp_all add: example_edited_eval example_service_def)
  show ?thesis
    using n c k idle yes no past
    by (simp add: helper_accepts_def helper_declines_def example_edited_fields
        example_shrunk_fields e)
qed

lemma pkexecWriteCustomProfilesAsync_run:
  "pkexecWriteCustomProfilesAsync helper payload s =
     (let cmd = ''pkexec '' @ tccdExec s @ '' --new_profiles /tmp/tmptccprofiles'';
          outcome = helper cmd (Some payload) (tmptccsettings s) (config_settings s)
      in (fst outcome,
          s\<lparr>tmptccprofiles := Some payload,
            exec_log := exec_log s @ [cmd],
            config_settings := snd outcome\<rparr>))"
  by (simp add: pkexecWriteCustomProfilesAsync_def exec_cmd_def helper_result_def
      writeProfiles_def tccdExec_def tmpProfilesPath_def Let_def)

text \<open>
  C7. In a store that is in order, \<open>copyProfile(src, newName)\<close> returns false, stages
  nothing, calls no helper and does not refresh when \<open>src\<close> names no profile or \<open>newName\<close>
  names one (built-in or custom). Otherwise, with \<open>q\<close> the profile \<open>src\<close> resolves to, it
  stages the custom collection followed by \<open>q\<close> renamed to \<open>newName\<close> (the profile
  collection only), calls the helper once, refreshes the mirror exactly when the helper
  succeeds, and returns the helper's success.
\<close>

theorem copyProfile_checks_then_appends:
  assumes ok: "store_ok s"
  shows
    "let all = profiles_of s (defaultProfiles s) @ profiles_of s (customProfiles s);
         r = copyProfile helper src newName s
     in (src \<notin> name ` set all \<or> newName \<in> name ` set all \<longrightarrow>
           fst r = False
           \<and> tmptccprofiles (snd r) = tmptccprofiles s
           \<and> tmptccsettings (snd r) = tmptccsettings s
           \<and> exec_log (snd r) = exec_log s
           \<and> settingsSubject (snd r) = settingsSubject s
           \<and> mirror_content (snd r) = mirror_content s)
      \<and> (\<forall>q. List.find (\<lambda>p. name p = src) all = Some q \<and> newName \<notin> name ` set all \<longrightarrow>
           (let payload = map Some (profiles_of s (customProfiles s)) @ [Some (q\<lparr>name := newName\<rparr>)];
                cmd = ''pkexec '' @ tccdExec s @ '' --new_profiles /tmp/tmptccprofiles'';
                outcome = helper cmd (Some payload) (tmptccsettings s) (config_settings s)
            in fst r = fst outcome
               \<and> tmptccprofiles (snd r) = Some payload
               \<and> tmptccsettings (snd r) = tmptccsettings s
               \<and> exec_log (snd r) = exec_log s @ [cmd]
               \<and> settingsSubject (snd r)
                    = settingsSubject s @ (if fst outcome then [settings (snd r)] else [])
               \<and> (if fst outcome
                   then customProfiles (snd r) = dbus_customProfiles s
                        \<and> settings_at (snd r) (settings (snd r)) = snd outcome
                   else customProfiles (snd r) = customProfiles s
                        \<and> settings (snd r) = settings s)))"
proof -
  let ?all = "profiles_of s (defaultProfiles s) @ profiles_of s (customProfiles s)"
  let ?r1 = "getProfileByName src s"
  let ?s1 = "snd ?r1"
  let ?r2 = "getProfileByName newName ?s1"
  let ?s2 = "snd ?r2"
  let ?r = "copyProfile helper src newName s"
  have a1: "allocates s ?s1" by (rule getProfileByName_allocates)
  have ok1: "store_ok ?s1" by (rule allocates_store_ok [OF ok a1])
  have a12: "allocates ?s1 ?s2" by (rule getProfileByName_allocates)
  have a2: "allocates s ?s2" by (rule allocates_trans [OF a1 a12])
  have all1: "profiles_of ?s1 (defaultProfiles ?s1) @ profiles_of ?s1 (customProfiles ?s1) = ?all"
    by (simp add: allocates_mirror [OF ok a1])
  have none1: "fst ?r1 = None \<longleftrightarrow> src \<notin> name ` set ?all" by (rule lookup_none_iff)
  have none2: "fst ?r2 = None \<longleftrightarrow> newName \<notin> name ` set ?all"
    using lookup_none_iff [of newName ?s1] by (simp only: all1)
  have run: "?r =
     (case fst ?r1 of
        None \<Rightarrow> (False, ?s1)
      | Some toCopy \<Rightarrow>
          (case fst ?r2 of
             Some existing \<Rightarrow> (False, ?s2)
           | None \<Rightarrow>
               (let payload = map Some (profiles_of ?s2 (customProfiles ?s2))
                       @ [Some ((profile_at ?s2 toCopy)\<lparr>name := newName\<rparr>)];
                    w = pkexecWriteCustomProfilesAsync helper payload ?s2
                in (fst w, if fst w then updateConfigData (snd w) else snd w))))"
    by (simp add: copyProfile_def split_def Let_def copyConfig_def getCustomProfiles_def
        split: option.split)
  have fail: "fst ?r = False
           \<and> tmptccprofiles (snd ?r) = tmptccprofiles s
           \<and> tmptccsettings (snd ?r) = tmptccsettings s
           \<and> exec_log (snd ?r) = exec_log s
           \<and> settingsSubject (snd ?r) = settingsSubject s
           \<and> mirror_content (snd ?r) = mirror_content s"
    if c: "src \<notin> name ` set ?all \<or> newName \<in> name ` set ?all"
  proof (cases "fst ?r1")
    case None
    then have "?r = (False, ?s1)" by (simp add: run)
    then show ?thesis
      by (simp add: allocates_fields [OF a1] allocates_mirror [OF ok a1])
  next
    case (Some toCopy)
    with none1 c have "newName \<in> name ` set ?all" by simp
    with none2 obtain e where "fst ?r2 = Some e" by fastforce
    with Some have "?r = (False, ?s2)" by (simp add: run)
    then show ?thesis
      by (simp add: allocates_fields [OF a2] allocates_mirror [OF ok a2])
  qed
  have succ: "(let payload = map Some (profiles_of s (customProfiles s)) @ [Some (q\<lparr>name := newName\<rparr>)];
                cmd = ''pkexec '' @ tccdExec s @ '' --new_profiles /tmp/tmptccprofiles'';
                outcome = helper cmd (Some payload) (tmptccsettings s) (config_settings s)
            in fst ?r = fst outcome
               \<and> tmptccprofiles (snd ?r) = Some payload
               \<and> tmptccsettings (snd ?r) = tmptccsettings s
               \<and> exec_log (snd ?r) = exec_log s @ [cmd]
               \<and> settingsSubject (snd ?r)
                    = settingsSubject s @ (if fst outcome then [settings (snd ?r)] else [])
               \<and> (if fst outcome
                   then customProfiles (snd ?r) = dbus_customProfiles s
                        \<and> settings_at (snd ?r) (settings (snd ?r)) = snd outcome
                   else customProfiles (snd ?r) = customProfiles s
                        \<and> settings (snd ?r) = settings s))"
    if c: "List.find (\<lambda>p. name p = src) ?all = Some q \<and> newName \<notin> name ` set ?all" for q
  proof -
    from c have lc: "lookup_content ?r1 = Some q" by (simp add: getProfileByName_content)
    then obtain toCopy where tc: "fst ?r1 = Some toCopy" and q: "profile_at ?s1 toCopy = q"
      by (auto simp add: lookup_content_def)
    have "?r1 = (Some toCopy, ?s1)" using tc by (simp add: prod_eq_iff)
    from getProfileByName_fresh(2) [OF this] have "toCopy < length (profile_objs ?s1)" .
    with a12 have q2: "profile_at ?s2 toCopy = q" by (simp add: allocates_profile_at q)
    from c none2 have n2: "fst ?r2 = None" by simp
    have cps: "profiles_of ?s2 (customProfiles ?s2) = profiles_of s (customProfiles s)"
      by (rule allocates_mirror(1) [OF ok a2])
    have tc2: "tccdExec ?s2 = tccdExec s" by (simp add: tccdExec_def allocates_fields [OF a2])
    let ?payload = "map Some (profiles_of s (customProfiles s)) @ [Some (q\<lparr>name := newName\<rparr>)]"
    let ?cmd = "''pkexec '' @ tccdExec s @ '' --new_profiles /tmp/tmptccprofiles''"
    let ?out = "helper ?cmd (Some ?payload) (tmptccsettings s) (config_settings s)"
    let ?s3 = "?s2\<lparr>tmptccprofiles := Some ?payload, exec_log := exec_log s @ [?cmd],
                  config_settings := snd ?out\<rparr>"
    have w: "pkexecWriteCustomProfilesAsync helper ?payload ?s2 = (fst ?out, ?s3)"
      by (simp add: pkexecWriteCustomProfilesAsync_run Let_def tc2 allocates_fields [OF a2])
    have r: "?r = (fst ?out, if fst ?out then updateConfigData ?s3 else ?s3)"
      by (simp add: run tc n2 Let_def q2 cps w)
    show ?thesis
      unfolding Let_def r
      by (simp add: allocates_fields [OF a2] updateConfigData_mirror(1,2,4)
          updateConfigData_fresh_settings)
  qed
  from fail succ show ?thesis unfolding Let_def by blast
qed

theorem copyProfile_checks_then_appends_witness:
  "store_ok example_service
   \<and> fst (copyProfile helper_accepts ''Nope'' ''Mine'' example_service) = False
   \<and> exec_log (snd (copyProfile helper_accepts ''Nope'' ''Mine'' example_service)) = []
   \<and> fst (copyProfile helper_accepts ''Office'' ''Work'' example_service) = False
   \<and> tmptccprofiles (snd (copyProfile helper_accepts ''Office'' ''Work'' example_service)) = None
   \<and> fst (copyProfile helper_accepts ''Office'' ''Mine'' example_service) = True
   \<and> tmptccprofiles (snd (copyProfile helper_accepts ''Office'' ''Mine'' example_service))
       = Some [Some \<lparr>name = ''Work'', profile_fields = 2\<rparr>,
               Some \<lparr>name = ''Game'', profile_fields = 3\<rparr>,
               Some \<lparr>name = ''Mine'', profile_fields = 1\<rparr>]
   \<and> exec_log (snd (copyProfile helper_accepts ''Office'' ''Mine'' example_service))
       = [''pkexec /opt/tccd --new_profiles /tmp/tmptccprofiles'']
   \<and> fst (copyProfile helper_declines ''Office'' ''Mine'' example_service) = False"
proof -
  note t = copyProfile_checks_then_appends [OF example_store_ok, unfolded Let_def]
  note f1 = t [of "''Nope''" "''Mine''" helper_accepts, THEN conjunct1, rule_format]
  note f2 = t [of "''Office''" "''Work''" helper_accepts, THEN conjunct1, rule_format]
  note y = t [of "''Office''" "''Mine''" helper_accepts, THEN conjunct2, rule_format,
      of "\<lparr>name = ''Office'', profile_fields = 1\<rparr>"]
  note n = t [of "''Office''" "''Mine''" helper_declines, THEN conjunct2, rule_format,
      of "\<lparr>name = ''Office'', profile_fields = 1\<rparr>"]
  have h1: "''Nope'' \<notin> name ` set (profiles_of example_service (defaultProfiles example_service)
        @ profiles_of example_service (customProfiles example_service))"
    by (simp add: example_profiles)
  have h2: "''Work'' \<in> name ` set (profiles_of example_service (defaultProfiles example_service)
        @ profiles_of example_service (customProfiles example_service))"
    by (simp add: example_profiles)
  have h3: "List.find (\<lambda>p. name p = ''Office'')
        (profiles_of example_service (defaultProfiles example_service)
          @ profiles_of example_service (customProfiles example_service))
        = Some \<lparr>name = ''Office'', profile_fields = 1\<rparr>
      \<and> ''Mine'' \<notin> name ` set (profiles_of example_service (defaultProfiles example_service)
        @ profiles_of example_service (customProfiles example_service))"
    by (simp add: example_profiles)
  show ?thesis
    using example_store_ok f1 [OF disjI1 [OF h1]] f2 [OF disjI2 [OF h2]] y [OF h3] n [OF h3]
    by (simp add: example_profiles example_settings helper_accepts_def helper_declines_def)
       (simp add: example_service_def)
qed

lemma setActiveProfile_run:
  "setActiveProfile helper profileName stateId s =
     (let sv = settings_at s (settings s);
          new_settings = sv\<lparr>stateMap := property_assign (stateMap sv) stateId profileName\<rparr>;
          cmd = ''pkexec '' @ tccdExec s @ '' --new_settings /tmp/tmptccsettings'';
          outcome = helper cmd (tmptccprofiles s) (Some new_settings) (config_settings s)
      in updateConfigData
           (s\<lparr>tmptccsettings := Some new_settings,
              exec_log := exec_log s @ [cmd],
              config_settings := snd outcome\<rparr>))"
  by (simp add: setActiveProfile_def exec_cmd_def helper_result_def writeSettings_def
      copyConfig_def getSettings_def tccdExec_def tmpSettingsPath_def Let_def)

lemma property_assign_settings:
  "sv\<lparr>stateMap := property_assign (stateMap sv) key v\<rparr> =
     (if key = ''__proto__'' \<and> stateMap sv key = None then sv
      else sv\<lparr>stateMap := (stateMap sv)(key \<mapsto> v)\<rparr>)"
proof (cases "key = ''__proto__'' \<and> stateMap sv key = None")
  case True
  have "sv\<lparr>stateMap := property_assign (stateMap sv) key v\<rparr> = sv"
    unfolding property_assign_def if_P [OF True] by simp
  then show ?thesis unfolding if_P [OF True] .
next
  case False
  show ?thesis unfolding property_assign_def if_not_P [OF False] ..
qed

text \<open>
  C8. The claim that the staged settings have \<open>stateMap[stateId]\<close> set to \<open>profileName\<close>
  for every \<open>stateId\<close> does not hold for the state \<open>__proto__\<close>: in the example,
  \<open>setActiveProfile('Quiet', '__proto__')\<close> stages the settings exactly as they are, with no
  entry for that state.
\<close>

theorem setActiveProfile_proto_state_counterexample:
  "settings_at example_service (settings example_service)
       = \<lparr>stateMap = [''AC'' \<mapsto> ''Office''], settings_fields = ()\<rparr>
   \<and> tmptccsettings (setActiveProfile helper_accepts ''Quiet'' ''__proto__'' example_service)
       = Some \<lparr>stateMap = [''AC'' \<mapsto> ''Office''], settings_fields = ()\<rparr>
   \<and> [''AC'' \<mapsto> ''Office''] ''__proto__'' \<noteq> Some ''Quiet''"
proof -
  have "tmptccsettings (setActiveProfile helper_accepts ''Quiet'' ''__proto__'' example_service)
      = Some ((settings_at example_service (settings example_service))
          \<lparr>stateMap := property_assign
             (stateMap (settings_at example_service (settings example_service)))
             ''__proto__'' ''Quiet''\<rparr>)"
    by (simp add: setActiveProfile_run Let_def)
  moreover have "property_assign [''AC'' \<mapsto> ''Office''] ''__proto__'' ''Quiet''
      = [''AC'' \<mapsto> ''Office'']"
    by (simp add: property_assign_def)
  ultimately show ?thesis
    by (simp add: example_settings)
qed

text \<open>
  C8, as the code has it. \<open>setActiveProfile(profileName, stateId)\<close> stages the current
  settings with \<open>stateMap[stateId]\<close> set to \<open>profileName\<close>, except that for the state
  \<open>__proto__\<close>, when the state map has no entry of that name, it stages the current settings
  unchanged. It leaves the profile staging file alone, calls the helper once with
  \<open>--new_settings\<close>, and then refreshes the mirror whatever the helper's outcome was: the
  result is the refreshed state, one more value has gone out on the settings stream, the
  custom profiles are the push channel's, the settings are the daemon's. The operation
  returns nothing to its caller.
\<close>

theorem setActiveProfile_stages_and_refreshes:
  "let sv = settings_at s (settings s);
       new_settings =
         (if stateId = ''__proto__'' \<and> stateMap sv stateId = None then sv
          else sv\<lparr>stateMap := (stateMap sv)(stateId \<mapsto> profileName)\<rparr>);
       cmd = ''pkexec '' @ tccdExec s @ '' --new_settings /tmp/tmptccsettings'';
       outcome = helper cmd (tmptccprofiles s) (Some new_settings) (config_settings s);
       escalated = s\<lparr>tmptccsettings := Some new_settings,
                       exec_log := exec_log s @ [cmd],
                       config_settings := snd outcome\<rparr>;
       s' = setActiveProfile helper profileName stateId s
   in s' = updateConfigData escalated
      \<and> tmptccsettings s' = Some new_settings
      \<and> tmptccprofiles s' = tmptccprofiles s
      \<and> exec_log s' = exec_log s @ [cmd]
      \<and> settingsSubject s' = settingsSubject s @ [settings s']
      \<and> customProfiles s' = dbus_customProfiles s
      \<and> settings_at s' (settings s') = snd outcome"
proof -
  let ?sv = "settings_at s (settings s)"
  let ?new = "if stateId = ''__proto__'' \<and> stateMap ?sv stateId = None then ?sv
      else ?sv\<lparr>stateMap := (stateMap ?sv)(stateId \<mapsto> profileName)\<rparr>"
  let ?cmd = "''pkexec '' @ tccdExec s @ '' --new_settings /tmp/tmptccsettings''"
  let ?out = "helper ?cmd (tmptccprofiles s) (Some ?new) (config_settings s)"
  let ?esc = "s\<lparr>tmptccsettings := Some ?new, exec_log := exec_log s @ [?cmd],
       config_settings := snd ?out\<rparr>"
  have run: "setActiveProfile helper profileName stateId s = updateConfigData ?esc"
    unfolding setActiveProfile_run Let_def property_assign_settings ..
  show ?thesis
    unfolding Let_def run
    by (simp add: updateConfigData_mirror(1,2,4) updateConfigData_fresh_settings)
qed

theorem setActiveProfile_stages_and_refreshes_witness:
  "map_option (\<lambda>v. stateMap v ''AC'')
       (tmptccsettings (setActiveProfile helper_declines ''Quiet'' ''AC'' example_service))
     = Some (Some ''Quiet'')
   \<and> tmptccprofiles (setActiveProfile helper_declines ''Quiet'' ''AC'' example_service) = None
   \<and> exec_log (setActiveProfile helper_declines ''Quiet'' ''AC'' example_service)
       = [''pkexec /opt/tccd --new_settings /tmp/tmptccsettings'']
   \<and> settingsSubject (setActiveProfile helper_declines ''Quiet'' ''AC'' example_service)
       = [0, settings (setActiveProfile helper_declines ''Quiet'' ''AC'' example_service)]
   \<and> settingsSubject (setActiveProfile helper_accepts ''Quiet'' ''AC'' example_service)
       = [0, settings (setActiveProfile helper_accepts ''Quiet'' ''AC'' example_service)]
   \<and> map_option (\<lambda>v. stateMap v ''__proto__'')
       (tmptccsettings (setActiveProfile helper_declines ''Quiet'' ''__proto__'' example_service))
     = Some None"
proof -
  note d = setActiveProfile_stages_and_refreshes
      [of example_service "''AC''" "''Quiet''" helper_declines, unfolded Let_def, THEN conjunct2]
  note a = setActiveProfile_stages_and_refreshes
      [of example_service "''AC''" "''Quiet''" helper_accepts, unfolded Let_def, THEN conjunct2]
  note p = setActiveProfile_stages_and_refreshes
      [of example_service "''__proto__''" "''Quiet''" helper_declines, unfolded Let_def,
        THEN conjunct2, THEN conjunct1]
  have e: "tmptccprofiles example_service = None" "settingsSubject example_service = [0]"
    by (simp_all add: example_service_def)
  show ?thesis
    using d a p by (simp add: example_settings e)
qed

end
